theory Spec2Isabelle
  imports Complex_Main
begin

section \<open>Campus map (\<^verbatim>\<open>src/Project/main.js\<close>): data model\<close>

text \<open>
  JavaScript numbers that are only read, compared and passed on (an extrusion depth, a
  property value) keep the non-finite values of the language. Coordinates, on which
  \<^verbatim>\<open>projectCoord\<close> computes, are modelled as real numbers: the model is the exact
  arithmetic that the double-precision operations of the program approximate.
\<close>

datatype jsnum = NaN | PosInf | NegInf | Fin real

text \<open>
  A property value read from parsed JSON, or \<open>Undefined\<close> for an absent property.
  \<open>Object s\<close> is an array or an object; \<open>s\<close> is the string its conversion to a
  primitive yields (\<^verbatim>\<open>[5]\<close> gives \<^verbatim>\<open>"5"\<close>, \<^verbatim>\<open>{}\<close> gives \<^verbatim>\<open>"[object Object]"\<close>).
\<close>

datatype jsval = Undefined | Null | Boolean bool | Number jsnum | String string | Object string

datatype error = TypeError

type_synonym coord = "real \<times> real"
type_synonym ring = "coord list"

text \<open>
  A polygon is the array of its rings, the outer ring first. The guards of the program
  test for a missing polygon and a missing first ring, so both may be \<^verbatim>\<open>null\<close>.
\<close>

type_synonym polygon = "ring option list"

datatype geometry = Polygon polygon | MultiPolygon "polygon option list"

record feature =
  properties :: "(string \<rightharpoonup> jsval) option"
  geometry :: "geometry option"

record featurecollection =
  features :: "feature list option"

section \<open>Coordinate projection\<close>

text \<open>
  \<^verbatim>\<open>function projectCoord([lon, lat]) {
    const scale = 100000;
    return [(lon - 20.96) * scale, (lat - 41.985) * scale]; }\<close>
\<close>

definition scale :: real where
  "scale = 100000"

definition projectCoord :: "coord \<Rightarrow> coord" where
  "projectCoord c = (case c of (lon, lat) \<Rightarrow> ((lon - 20.96) * scale, (lat - 41.985) * scale))"

section \<open>Scene objects\<close>

text \<open>
  A \<^verbatim>\<open>THREE.Shape\<close> or \<^verbatim>\<open>THREE.Path\<close> is the sequence of drawing commands it has
  received. The loaders issue \<^verbatim>\<open>moveTo\<close> for the element at index 0 of a ring and
  \<^verbatim>\<open>lineTo\<close> for every later element.
\<close>

datatype cmd = MoveTo "jsnum \<times> jsnum" | LineTo "jsnum \<times> jsnum"

type_synonym path = "cmd list"

text \<open>
  \<^verbatim>\<open>ring.forEach((coord, i) => { const [x, y] = projectCoord(coord);
      i === 0 ? shape.moveTo(x, y) : shape.lineTo(x, y); });\<close>
\<close>

definition projected :: "coord \<Rightarrow> jsnum \<times> jsnum" where
  "projected c = (Fin (fst (projectCoord c)), Fin (snd (projectCoord c)))"

fun trace_ring :: "ring \<Rightarrow> path" where
  "trace_ring [] = []"
| "trace_ring (c # cs) = MoveTo (projected c) # map (\<lambda>c. LineTo (projected c)) cs"

text \<open>
  A material: its name, the hex value of its \<^verbatim>\<open>emissive\<close> colour when the material
  has one, and the emissive intensity.
\<close>

record material =
  name :: string
  emissive :: "nat option"
  emissiveIntensity :: real

record extrudeSettings =
  depth :: jsnum
  bevelEnabled :: "bool option"

text \<open>
  A mesh: the shape its \<^verbatim>\<open>ExtrudeGeometry\<close> was built from (commands and holes), the
  extrusion settings, the material, and the fields the program sets on it.
\<close>

record mesh =
  shape :: path
  holes :: "path list"
  settings :: extrudeSettings
  material :: "material option"
  position_z :: real
  castShadow :: bool
  receiveShadow :: bool
  userData_buildingName :: "string option"
  userData_fileName :: "string option"

text \<open>
  What the program tells its collaborators, in the order it does: the network
  (\<open>FetchBatch us\<close>: the \<^verbatim>\<open>fetch\<close> calls that the loop of one \<^verbatim>\<open>loadBatch\<close> call makes,
  in order), the timer (\<^verbatim>\<open>setTimeout\<close>), the building animator, the info panel, the
  console (\<open>LogLoaded n\<close>: the message that \<open>n\<close> buildings are loaded; the other
  messages are left out) and the colour of a material (\<^verbatim>\<open>emissive.setHex\<close> on the mesh
  at an index of the campus group).
  \<open>Settled f ok\<close> records that the promise chain of file \<open>f\<close> has settled; \<open>ok\<close>
  tells whether its data callback ran to its end.
\<close>

datatype event =
    FetchBatch "string list"
  | Settled string bool
  | SetTimeout nat
  | RegisterBuilding string nat
  | ShowBuildingsUpToYear int bool
  | SetPaused bool
  | GetBuildingInfo string
  | InfoPanelUpdate "string option"
  | SetHex nat nat
  | LogLoaded nat

text \<open>
  The mutable state of the module: the children of \<^verbatim>\<open>campusGroup\<close> in insertion
  order, \<^verbatim>\<open>buildingMaterialCursor\<close>, \<^verbatim>\<open>highlightedBuilding\<close> (a mesh of the campus
  group, by its index), \<^verbatim>\<open>loadedCount\<close> of \<^verbatim>\<open>loadSplitBuildings\<close>, the files whose
  promises of the current batch have not settled yet, \<^verbatim>\<open>endIndex\<close> of the current
  \<^verbatim>\<open>loadBatch\<close> call, the start index of the \<^verbatim>\<open>loadBatch\<close> call that a pending timeout
  will make, and the calls made so far.
\<close>

record world =
  campusGroup :: "mesh list"
  buildingMaterialCursor :: nat
  highlightedBuilding :: "nat option"
  loadedCount :: nat
  pending :: "string list"
  endIndex :: nat
  pendingTimer :: "nat option"
  trace :: "event list"

definition emit :: "event \<Rightarrow> world \<Rightarrow> world" where
  "emit e s = s\<lparr>trace := trace s @ [e]\<rparr>"

definition add :: "mesh \<Rightarrow> world \<Rightarrow> world" where
  "add m s = s\<lparr>campusGroup := campusGroup s @ [m]\<rparr>"

text \<open>
  \<^verbatim>\<open>Array.prototype.forEach\<close> with a callback that changes the state and may throw:
  the first exception ends the loop, and what the earlier calls did stays done.
\<close>

fun forEach :: "('a \<Rightarrow> world \<Rightarrow> error option \<times> world) \<Rightarrow> 'a list \<Rightarrow> world \<Rightarrow> error option \<times> world" where
  "forEach f [] s = (None, s)"
| "forEach f (x # xs) s =
     (case f x s of
        (None, s') \<Rightarrow> forEach f xs s'
      | (Some e, s') \<Rightarrow> (Some e, s'))"

section \<open>Reading a feature\<close>

text \<open>
  \<^verbatim>\<open>Number(v)\<close>. The conversion of a string is the language's own; it is a parameter
  \<open>strnum\<close> of the model.
\<close>

fun ToNumber :: "(string \<Rightarrow> jsnum) \<Rightarrow> jsval \<Rightarrow> jsnum" where
  "ToNumber strnum Undefined = NaN"
| "ToNumber strnum Null = Fin 0"
| "ToNumber strnum (Boolean b) = (if b then Fin 1 else Fin 0)"
| "ToNumber strnum (Number n) = n"
| "ToNumber strnum (String s) = strnum s"
| "ToNumber strnum (Object s) = strnum s"

text \<open>A number is falsy when it is \<^verbatim>\<open>NaN\<close> or zero.\<close>

definition truthy :: "jsnum \<Rightarrow> bool" where
  "truthy n = (n \<noteq> NaN \<and> n \<noteq> Fin 0)"

text \<open>\<^verbatim>\<open>feature.properties?.estimated_height\<close>\<close>

definition estimated_height :: "feature \<Rightarrow> jsval" where
  "estimated_height f =
     (case properties f of
        None \<Rightarrow> Undefined
      | Some ps \<Rightarrow> (case ps ''estimated_height'' of None \<Rightarrow> Undefined | Some v \<Rightarrow> v))"

text \<open>\<^verbatim>\<open>const height = Number(feature.properties?.estimated_height) || 10;\<close>\<close>

definition height :: "(string \<Rightarrow> jsnum) \<Rightarrow> feature \<Rightarrow> jsnum" where
  "height strnum f =
     (let n = ToNumber strnum (estimated_height f) in if truthy n then n else Fin 10)"

text \<open>
  \<^verbatim>\<open>const polygons = feature.geometry.type === 'Polygon'
      ? [feature.geometry.coordinates] : feature.geometry.coordinates;\<close>
\<close>

definition polygons :: "geometry \<Rightarrow> polygon option list" where
  "polygons g = (case g of Polygon p \<Rightarrow> [Some p] | MultiPolygon ps \<Rightarrow> ps)"

text \<open>
  \<^verbatim>\<open>if (!polygon || !polygon[0] || polygon[0].length < 3) return;\<close>
  The ring \<^verbatim>\<open>polygon[0]\<close> when the guard lets the polygon through.
\<close>

fun guarded_ring :: "polygon option \<Rightarrow> ring option" where
  "guarded_ring None = None"
| "guarded_ring (Some []) = None"
| "guarded_ring (Some (None # rs)) = None"
| "guarded_ring (Some (Some r # rs)) = (if length r < 3 then None else Some r)"

section \<open>Roads: \<^verbatim>\<open>loadGeoJson\<close>\<close>

text \<open>
  The options object of \<^verbatim>\<open>loadGeoJson\<close>. \<open>materials\<close> holds the \<^verbatim>\<open>material\<close> of each
  descriptor; it is \<open>None\<close> when \<^verbatim>\<open>options.materials\<close> is not an array.
\<close>

record options =
  isBuilding :: bool
  materials :: "material list option"
  opt_material :: "material option"
  opt_extrudeSettings :: extrudeSettings
  y_position :: real

definition new_mesh :: "path \<Rightarrow> extrudeSettings \<Rightarrow> material option \<Rightarrow> mesh" where
  "new_mesh sh es mat =
     \<lparr>shape = sh, holes = [], settings = es, material = mat, position_z = 0,
      castShadow = False, receiveShadow = False,
      userData_buildingName = None, userData_fileName = None\<rparr>"

text \<open>The callback of \<^verbatim>\<open>polygons.forEach\<close> in \<^verbatim>\<open>loadGeoJson\<close> (lines 160 to 192).\<close>

definition loadGeoJson_polygon ::
  "(string \<Rightarrow> jsnum) \<Rightarrow> options \<Rightarrow> feature \<Rightarrow> polygon option \<Rightarrow> world \<Rightarrow> error option \<times> world" where
  "loadGeoJson_polygon strnum opts f p s =
     (case guarded_ring p of
        None \<Rightarrow> (None, s)
      | Some r \<Rightarrow>
          (let sh = trace_ring r;
               building = (isBuilding opts \<and> (case materials opts of None \<Rightarrow> False | Some ms \<Rightarrow> ms \<noteq> []));
               es = (if building then \<lparr>depth = height strnum f, bevelEnabled = Some False\<rparr>
                     else opt_extrudeSettings opts);
               mat = (if building
                      then Some (the (materials opts) ! (buildingMaterialCursor s mod length (the (materials opts))))
                      else opt_material opts);
               s1 = (if building then s\<lparr>buildingMaterialCursor := buildingMaterialCursor s + 1\<rparr> else s);
               m = (new_mesh sh es mat)\<lparr>position_z := y_position opts, castShadow := True, receiveShadow := True\<rparr>
           in (None, add m s1)))"

text \<open>The callback of \<^verbatim>\<open>data.features.forEach\<close>: a feature without geometry throws.\<close>

definition loadGeoJson_feature ::
  "(string \<Rightarrow> jsnum) \<Rightarrow> options \<Rightarrow> feature \<Rightarrow> world \<Rightarrow> error option \<times> world" where
  "loadGeoJson_feature strnum opts f s =
     (case geometry f of
        None \<Rightarrow> (Some TypeError, s)
      | Some g \<Rightarrow> forEach (loadGeoJson_polygon strnum opts f) (polygons g) s)"

text \<open>The callback that receives the parsed file: data without features throws.\<close>

definition loadGeoJson :: "(string \<Rightarrow> jsnum) \<Rightarrow> options \<Rightarrow> featurecollection \<Rightarrow> world \<Rightarrow> error option \<times> world" where
  "loadGeoJson strnum opts data s =
     (case features data of
        None \<Rightarrow> (Some TypeError, s)
      | Some fs \<Rightarrow> forEach (loadGeoJson_feature strnum opts) fs s)"

section \<open>Walkways: \<^verbatim>\<open>loadWalkways\<close>\<close>

text \<open>
  \<^verbatim>\<open>f.properties.fill === '#ff0000'\<close>: reading \<^verbatim>\<open>fill\<close> of missing properties throws.
\<close>

definition is_hole_feature :: "feature \<Rightarrow> error + bool" where
  "is_hole_feature f =
     (case properties f of
        None \<Rightarrow> Inl TypeError
      | Some ps \<Rightarrow> Inr (ps ''fill'' = Some (String ''#ff0000'')))"

text \<open>\<^verbatim>\<open>Array.prototype.filter\<close> and \<^verbatim>\<open>map\<close> with a callback that may throw.\<close>

fun filter_throw :: "('a \<Rightarrow> error + bool) \<Rightarrow> 'a list \<Rightarrow> error + 'a list" where
  "filter_throw P [] = Inr []"
| "filter_throw P (x # xs) =
     (case P x of
        Inl e \<Rightarrow> Inl e
      | Inr b \<Rightarrow> (case filter_throw P xs of
                    Inl e \<Rightarrow> Inl e
                  | Inr ys \<Rightarrow> Inr (if b then x # ys else ys)))"

fun map_throw :: "('a \<Rightarrow> error + 'b) \<Rightarrow> 'a list \<Rightarrow> error + 'b list" where
  "map_throw g [] = Inr []"
| "map_throw g (x # xs) =
     (case g x of
        Inl e \<Rightarrow> Inl e
      | Inr y \<Rightarrow> (case map_throw g xs of Inl e \<Rightarrow> Inl e | Inr ys \<Rightarrow> Inr (y # ys)))"

text \<open>
  The path that \<^verbatim>\<open>feature.geometry.coordinates[0].forEach(...)\<close> draws. The walkway
  loader does not read the geometry type. Of a polygon, \<^verbatim>\<open>coordinates[0]\<close> is the first
  ring. Of a multi-polygon it is the first polygon: each of its rings is then taken for a
  coordinate pair, whose two entries are arrays, and the projection yields \<^verbatim>\<open>NaN\<close>
  twice. A missing \<^verbatim>\<open>coordinates[0]\<close>, and destructuring \<^verbatim>\<open>null\<close>, throw.
\<close>

fun nan_path :: "'a list \<Rightarrow> path" where
  "nan_path [] = []"
| "nan_path (r # rs) = MoveTo (NaN, NaN) # map (\<lambda>r. LineTo (NaN, NaN)) rs"

definition coordinates0_path :: "feature \<Rightarrow> error + path" where
  "coordinates0_path f =
     (case geometry f of
        None \<Rightarrow> Inl TypeError
      | Some (Polygon []) \<Rightarrow> Inl TypeError
      | Some (Polygon (None # rs)) \<Rightarrow> Inl TypeError
      | Some (Polygon (Some r # rs)) \<Rightarrow> Inr (trace_ring r)
      | Some (MultiPolygon []) \<Rightarrow> Inl TypeError
      | Some (MultiPolygon (None # ps)) \<Rightarrow> Inl TypeError
      | Some (MultiPolygon (Some p # ps)) \<Rightarrow>
          (if None \<in> set p then Inl TypeError else Inr (nan_path p)))"

text \<open>The callback of \<^verbatim>\<open>mainPolygons.forEach\<close> (lines 137 to 149).\<close>

definition loadWalkways_main :: "material \<Rightarrow> path list \<Rightarrow> feature \<Rightarrow> world \<Rightarrow> error option \<times> world" where
  "loadWalkways_main walkwayMaterial allHolePaths mainFeature s =
     (case coordinates0_path mainFeature of
        Inl e \<Rightarrow> (Some e, s)
      | Inr sh \<Rightarrow>
          (let m = (new_mesh sh \<lparr>depth = Fin 0.1, bevelEnabled = Some False\<rparr> (Some walkwayMaterial))
                     \<lparr>holes := allHolePaths, castShadow := True, receiveShadow := True\<rparr>
           in (None, add m s)))"

text \<open>The callback that receives the parsed walkway file (lines 125 to 150).\<close>

definition loadWalkways :: "material \<Rightarrow> featurecollection \<Rightarrow> world \<Rightarrow> error option \<times> world" where
  "loadWalkways walkwayMaterial data s =
     (case features data of
        None \<Rightarrow> (Some TypeError, s)
      | Some fs \<Rightarrow>
          (case filter_throw (\<lambda>f. map_sum id Not (is_hole_feature f)) fs of
             Inl e \<Rightarrow> (Some e, s)
           | Inr mainPolygons \<Rightarrow>
               (case filter_throw is_hole_feature fs of
                  Inl e \<Rightarrow> (Some e, s)
                | Inr holeFeatures \<Rightarrow>
                    (case map_throw coordinates0_path holeFeatures of
                       Inl e \<Rightarrow> (Some e, s)
                     | Inr allHolePaths \<Rightarrow>
                         forEach (loadWalkways_main walkwayMaterial allHolePaths) mainPolygons s))))"

section \<open>Buildings: \<^verbatim>\<open>loadSplitBuildings\<close>\<close>

text \<open>\<^verbatim>\<open>fileName.replace(/^building_/, '').replace(/\.geojson$/, '')\<close>\<close>

definition strip_prefix :: "string \<Rightarrow> string \<Rightarrow> string" where
  "strip_prefix p s = (if take (length p) s = p then drop (length p) s else s)"

definition strip_suffix :: "string \<Rightarrow> string \<Rightarrow> string" where
  "strip_suffix q s =
     (if length q \<le> length s \<and> drop (length s - length q) s = q
      then take (length s - length q) s else s)"

definition cleanFileName :: "string \<Rightarrow> string" where
  "cleanFileName fileName = strip_suffix ''.geojson'' (strip_prefix ''building_'' fileName)"

text \<open>
  What the program is given from outside: the parsed content of each URL (\<open>None\<close> when
  \<^verbatim>\<open>fetch(url).then(res => res.json())\<close> rejects), the string-to-number conversion of the
  language, the materials that \<^verbatim>\<open>createMaterials\<close> returns (of \<^verbatim>\<open>buildingMaterials\<close>
  the \<^verbatim>\<open>material\<close> of each descriptor), and the ray caster: for the client position of
  a pointer event and the children of the campus group, the objects hit, nearest first,
  each by its index in the group. The list of building files is a constant of the
  program; the model takes it as a parameter and gives the program's own list below.
\<close>

record env =
  buildingFiles :: "string list"
  fetchJson :: "string \<Rightarrow> featurecollection option"
  strnum :: "string \<Rightarrow> jsnum"
  buildingMaterials :: "material list"
  walkwayMaterial :: material
  roadMaterial :: material
  intersectObjects :: "real \<times> real \<Rightarrow> mesh list \<Rightarrow> nat list"

text \<open>
  The callback of \<^verbatim>\<open>polygons.forEach\<close> in \<^verbatim>\<open>loadBatch\<close> (lines 237 to 274). With no
  building material the descriptor is \<^verbatim>\<open>undefined\<close> and reading its \<^verbatim>\<open>material\<close>
  throws, after the cursor has moved. Each mesh gets a clone of the base material.
\<close>

definition loadBatch_polygon :: "env \<Rightarrow> string \<Rightarrow> feature \<Rightarrow> polygon option \<Rightarrow> world \<Rightarrow> error option \<times> world" where
  "loadBatch_polygon E fileName f p s =
     (case guarded_ring p of
        None \<Rightarrow> (None, s)
      | Some r \<Rightarrow>
          (let sh = trace_ring r;
               es = \<lparr>depth = height (strnum E) f, bevelEnabled = Some False\<rparr>;
               mats = buildingMaterials E;
               s1 = s\<lparr>buildingMaterialCursor := buildingMaterialCursor s + 1\<rparr>
           in if mats = [] then (Some TypeError, s1)
              else
                (let baseMaterial = mats ! (buildingMaterialCursor s mod length mats);
                     mat = (case emissive baseMaterial of
                              None \<Rightarrow> baseMaterial
                            | Some c \<Rightarrow> baseMaterial\<lparr>emissiveIntensity := 0.2\<rparr>);
                     m = (new_mesh sh es (Some mat))
                           \<lparr>position_z := 0, castShadow := True, receiveShadow := True,
                            userData_buildingName := Some (cleanFileName fileName),
                            userData_fileName := Some (cleanFileName fileName)\<rparr>;
                     s2 = emit (RegisterBuilding (cleanFileName fileName) (length (campusGroup s1))) s1
                 in (None, add m s2))))"

definition loadBatch_feature :: "env \<Rightarrow> string \<Rightarrow> feature \<Rightarrow> world \<Rightarrow> error option \<times> world" where
  "loadBatch_feature E fileName f s =
     (case geometry f of
        None \<Rightarrow> (Some TypeError, s)
      | Some g \<Rightarrow> forEach (loadBatch_polygon E fileName f) (polygons g) s)"

text \<open>
  The callback that receives the parsed building file (lines 232 to 278); it counts the
  file as loaded at its end.
\<close>

definition loadBatch_data :: "env \<Rightarrow> string \<Rightarrow> featurecollection \<Rightarrow> world \<Rightarrow> error option \<times> world" where
  "loadBatch_data E fileName data s =
     (case (case features data of
              None \<Rightarrow> (None, s)
            | Some fs \<Rightarrow> forEach (loadBatch_feature E fileName) fs s) of
        (Some e, s') \<Rightarrow> (Some e, s')
      | (None, s') \<Rightarrow> (None, s'\<lparr>loadedCount := loadedCount s' + 1\<rparr>))"

definition url :: "string \<Rightarrow> string" where
  "url fileName = ''campus/buildings/'' @ fileName"

text \<open>
  One promise of a batch, from \<^verbatim>\<open>fetch(url)\<close> to its \<^verbatim>\<open>catch\<close>: a rejected fetch and an
  exception of the data callback both end in the \<^verbatim>\<open>catch\<close> handler, which logs a
  warning, so the promise is fulfilled either way.
\<close>

definition loadBatch_promise :: "env \<Rightarrow> string \<Rightarrow> world \<Rightarrow> world" where
  "loadBatch_promise E fileName s =
     (case fetchJson E (url fileName) of
        None \<Rightarrow> emit (Settled fileName False) s
      | Some data \<Rightarrow>
          (case loadBatch_data E fileName data s of
             (None, s') \<Rightarrow> emit (Settled fileName True) s'
           | (Some e, s') \<Rightarrow> emit (Settled fileName False) s'))"

definition buildingsPerBatch :: nat where
  "buildingsPerBatch = 100"

text \<open>\<^verbatim>\<open>function startTimeline() { buildingAnimator.showBuildingsUpToYear(2001, true); }\<close>\<close>

definition startTimeline :: "world \<Rightarrow> world" where
  "startTimeline s = emit (ShowBuildingsUpToYear 2001 True) s"

text \<open>
  The callback of \<^verbatim>\<open>Promise.all(promises).then\<close> (lines 283 to 291). Every promise
  of the batch is fulfilled in the end, so the callback runs once, when the last of them
  has settled.
\<close>

definition promise_all_then :: "env \<Rightarrow> world \<Rightarrow> world" where
  "promise_all_then E s =
     (if loadedCount s < length (buildingFiles E)
      then (emit (SetTimeout 50) s)\<lparr>pendingTimer := Some (endIndex s)\<rparr>
      else startTimeline (emit (LogLoaded (loadedCount s)) s))"

text \<open>
  \<^verbatim>\<open>loadBatch(startIndex)\<close>: the loop issues the fetches of the files from
  \<open>startIndex\<close> up to \<open>endIndex\<close> that have a name. With no promise at all,
  \<^verbatim>\<open>Promise.all\<close> is fulfilled at once.
\<close>

definition loadBatch :: "env \<Rightarrow> nat \<Rightarrow> world \<Rightarrow> world" where
  "loadBatch E startIndex s =
     (let e = min (startIndex + buildingsPerBatch) (length (buildingFiles E));
          batch = filter (\<lambda>fileName. fileName \<noteq> [])
                    (map (\<lambda>i. buildingFiles E ! i) [startIndex..<e]);
          s1 = (emit (FetchBatch (map url batch)) s)\<lparr>pending := batch, endIndex := e\<rparr>
      in if batch = [] then promise_all_then E s1 else s1)"

text \<open>
  The promise of a file of the current batch settles; when it was the last one, the
  callback of \<^verbatim>\<open>Promise.all\<close> follows.
\<close>

definition settles :: "env \<Rightarrow> string \<Rightarrow> world \<Rightarrow> world" where
  "settles E fileName s =
     (if fileName \<in> set (pending s)
      then (let s1 = loadBatch_promise E fileName (s\<lparr>pending := remove1 fileName (pending s)\<rparr>)
            in if pending s1 = [] then promise_all_then E s1 else s1)
      else s)"

text \<open>The timeout fires: \<^verbatim>\<open>() => loadBatch(endIndex)\<close>.\<close>

definition timer_fires :: "env \<Rightarrow> world \<Rightarrow> world" where
  "timer_fires E s =
     (case pendingTimer s of
        None \<Rightarrow> s
      | Some k \<Rightarrow> loadBatch E k (s\<lparr>pendingTimer := None\<rparr>))"

text \<open>\<^verbatim>\<open>loadSplitBuildings\<close>: \<^verbatim>\<open>let loadedCount = 0; ... loadBatch(0);\<close>\<close>

definition loadSplitBuildings :: "env \<Rightarrow> world \<Rightarrow> world" where
  "loadSplitBuildings E s = loadBatch E 0 (s\<lparr>loadedCount := 0\<rparr>)"

text \<open>The list of files in the program (lines 199 to 212).\<close>

definition campus_buildingFiles :: "string list" where
  "campus_buildingFiles =
    [''building_001.geojson'', ''building_101.geojson'', ''building_101_classes.geojson'',
     ''building_101_under.geojson'', ''building_301.geojson'', ''building_302.geojson'',
     ''building_303.geojson'', ''building_304.geojson'', ''building_315.geojson'',
     ''building_400.geojson'', ''building_803.geojson'', ''building_804.geojson'',
     ''building_805.geojson'', ''building_806.geojson'', ''building_807.geojson'',
     ''building_808.geojson'', ''building_809.geojson'', ''building_810.geojson'',
     ''building_811.geojson'', ''building_812.geojson'', ''building_813.geojson'',
     ''building_816.geojson'', ''building_817.geojson'', ''building_818.geojson'',
     ''building_1001.geojson'', ''building_1002.geojson'', ''building_dorm1.geojson'',
     ''building_dorm2.geojson'', ''building_dorm3.geojson'', ''building_dorm4.geojson'',
     ''building_dorm5.geojson'', ''building_dorm6.geojson'', ''building_dorm7.geojson'',
     ''building_dorm8.geojson'', ''building_dorm9.geojson'', ''building_library.geojson'',
     ''building_library1.geojson'', ''building_lh1.geojson'', ''building_lh2.geojson'',
     ''building_cantine.geojson'', ''building_cantine_inside.geojson'', ''building_conn.geojson'',
     ''building_change_room.geojson'', ''building_pavillion.geojson'', ''building_misc.geojson'',
     ''building_book_shop.geojson'', ''building_tech_park.geojson'', ''building_solar_1.geojson'',
     ''building_solar_2.geojson'', ''building_student_service_1.geojson'',
     ''building_student_service_2.geojson'', ''building_empty.geojson'', ''building_idk.geojson'']"

section \<open>Timeline callbacks\<close>

text \<open>
  \<^verbatim>\<open>function handleYearChange(year, animate = true) {
      buildingAnimator.showBuildingsUpToYear(year, animate); }\<close>
  It is the first callback given to \<^verbatim>\<open>TimelineUI\<close>; an omitted \<^verbatim>\<open>animate\<close> is \<open>None\<close>.
\<close>

definition handleYearChange :: "int \<Rightarrow> bool option \<Rightarrow> world \<Rightarrow> world" where
  "handleYearChange year animate s =
     emit (ShowBuildingsUpToYear year (case animate of None \<Rightarrow> True | Some a \<Rightarrow> a)) s"

text \<open>The second callback: \<^verbatim>\<open>(isPlaying) => { buildingAnimator.setPaused(!isPlaying); }\<close>\<close>

definition handlePlaying :: "bool \<Rightarrow> world \<Rightarrow> world" where
  "handlePlaying isPlaying s = emit (SetPaused (\<not> isPlaying)) s"

section \<open>Selection\<close>

text \<open>
  The material of the object at an index of the campus group. The group holds the meshes
  that the loaders add; an index beyond them stands for an object of the scene that the
  loaders did not build (the ground plane, a part of the tree model).
\<close>

definition material_at :: "world \<Rightarrow> nat \<Rightarrow> material option" where
  "material_at s i = (if i < length (campusGroup s) then material (campusGroup s ! i) else None)"

text \<open>\<^verbatim>\<open>mesh.material?.emissive\<close> is truthy.\<close>

definition has_emissive :: "world \<Rightarrow> nat \<Rightarrow> bool" where
  "has_emissive s i = (case material_at s i of None \<Rightarrow> False | Some mat \<Rightarrow> emissive mat \<noteq> None)"

text \<open>
  \<^verbatim>\<open>mesh.material.emissive.setHex(h)\<close>: it throws when the mesh has no material or the
  material has no emissive colour. The meshes that carry a building name each own a clone
  of their base material (\<^verbatim>\<open>loadBatch\<close>), so the colour of no other mesh changes.
\<close>

definition setHex :: "nat \<Rightarrow> nat \<Rightarrow> world \<Rightarrow> error + world" where
  "setHex i h s =
     (case material_at s i of
        None \<Rightarrow> Inl TypeError
      | Some mat \<Rightarrow>
          (case emissive mat of
             None \<Rightarrow> Inl TypeError
           | Some c \<Rightarrow>
               Inr (emit (SetHex i h)
                     (s\<lparr>campusGroup := (campusGroup s)
                           [i := (campusGroup s ! i)\<lparr>material := Some (mat\<lparr>emissive := Some h\<rparr>)\<rparr>]\<rparr>))))"

text \<open>
  \<^verbatim>\<open>function highlightBuilding(mesh) {
    if (highlightedBuilding && highlightedBuilding.material?.emissive) {
        highlightedBuilding.material.emissive.setHex(0x000000); }
    if (mesh?.material?.emissive) {
        mesh.material.emissive.setHex(0x1a304c);
        highlightedBuilding = mesh;
    } else { highlightedBuilding = null; } }\<close>
\<close>

definition highlightBuilding :: "nat option \<Rightarrow> world \<Rightarrow> error + world" where
  "highlightBuilding mesh s =
     (case (case highlightedBuilding s of
              None \<Rightarrow> Inr s
            | Some i \<Rightarrow> if has_emissive s i then setHex i 0x000000 s else Inr s) of
        Inl e \<Rightarrow> Inl e
      | Inr s1 \<Rightarrow>
          (case mesh of
             None \<Rightarrow> Inr (s1\<lparr>highlightedBuilding := None\<rparr>)
           | Some j \<Rightarrow>
               if has_emissive s1 j
               then (case setHex j 0x1a304c s1 of
                       Inl e \<Rightarrow> Inl e
                     | Inr s2 \<Rightarrow> Inr (s2\<lparr>highlightedBuilding := Some j\<rparr>))
               else Inr (s1\<lparr>highlightedBuilding := None\<rparr>)))"

text \<open>
  \<^verbatim>\<open>mesh.userData.fileName || mesh.userData.buildingName\<close>, and whether the result is
  truthy: a missing name and the empty string are not.
\<close>

definition buildingName :: "world \<Rightarrow> nat \<Rightarrow> string option" where
  "buildingName s i =
     (if i < length (campusGroup s)
      then (let m = campusGroup s ! i;
                n = (case userData_fileName m of
                       None \<Rightarrow> userData_buildingName m
                     | Some a \<Rightarrow> if a \<noteq> [] then Some a else userData_buildingName m)
            in (case n of None \<Rightarrow> None | Some b \<Rightarrow> if b \<noteq> [] then Some b else None))
      else None)"

text \<open>
  \<^verbatim>\<open>handlePointerClick(event)\<close> (lines 309 to 330), given the hits of the ray cast.
\<close>

definition handlePointerClick :: "nat list \<Rightarrow> world \<Rightarrow> error + world" where
  "handlePointerClick intersects s =
     (case intersects of
        [] \<Rightarrow> (case highlightBuilding None s of
                 Inl e \<Rightarrow> Inl e
               | Inr s1 \<Rightarrow> Inr (emit (InfoPanelUpdate None) s1))
      | mesh # rest \<Rightarrow>
          (case buildingName s mesh of
             None \<Rightarrow> Inr s
           | Some b \<Rightarrow>
               (case highlightBuilding (Some mesh) s of
                  Inl e \<Rightarrow> Inl e
                | Inr s1 \<Rightarrow>
                    Inr (emit (InfoPanelUpdate (Some b)) (emit (GetBuildingInfo b) s1)))))"

section \<open>The program as a reactive system\<close>

text \<open>
  After the module has been evaluated, the program runs one callback at a time. What
  makes a callback run is an input: the promise of a building file settles, the timeout
  fires, the walkway or the road file arrives, the timeline calls one of its two
  callbacks, or the pointer goes down at a client position.
\<close>

datatype input =
    Settles string
  | TimerFires
  | WalkwaysArrive featurecollection
  | RoadsArrive featurecollection
  | YearChange int "bool option"
  | Playing bool
  | PointerDown "real \<times> real"

text \<open>
  The state of the module before any callback: the building loader has been started.
  The campus group lists the meshes that the loaders add; the ground plane and the tree
  model are left out.
\<close>

definition initial :: world where
  "initial = \<lparr>campusGroup = [], buildingMaterialCursor = 0, highlightedBuilding = None,
              loadedCount = 0, pending = [], endIndex = 0, pendingTimer = None, trace = []\<rparr>"

definition boot :: "env \<Rightarrow> world" where
  "boot E = loadSplitBuildings E initial"

text \<open>
  The options of the one call of \<^verbatim>\<open>loadGeoJson\<close>:
  \<^verbatim>\<open>{ material: roadMaterial, extrudeSettings: { depth: 0.1 }, y_position: 0.01 }\<close>
\<close>

definition road_options :: "env \<Rightarrow> options" where
  "road_options E =
     \<lparr>isBuilding = False, materials = None, opt_material = Some (roadMaterial E),
      opt_extrudeSettings = \<lparr>depth = Fin 0.1, bevelEnabled = None\<rparr>, y_position = 0.01\<rparr>"

text \<open>
  An exception in a callback ends the callback; what the callback did before stays done.
\<close>

definition step :: "env \<Rightarrow> input \<Rightarrow> world \<Rightarrow> world" where
  "step E i s =
     (case i of
        Settles f \<Rightarrow> settles E f s
      | TimerFires \<Rightarrow> timer_fires E s
      | WalkwaysArrive data \<Rightarrow> snd (loadWalkways (walkwayMaterial E) data s)
      | RoadsArrive data \<Rightarrow> snd (loadGeoJson (strnum E) (road_options E) data s)
      | YearChange year animate \<Rightarrow> handleYearChange year animate s
      | Playing isPlaying \<Rightarrow> handlePlaying isPlaying s
      | PointerDown p \<Rightarrow>
          (case handlePointerClick (intersectObjects E p (campusGroup s)) s of
             Inl e \<Rightarrow> s
           | Inr s' \<Rightarrow> s'))"

definition run :: "env \<Rightarrow> input list \<Rightarrow> world" where
  "run E ins = fold (step E) ins (boot E)"

section \<open>Notions used in the statements\<close>

text \<open>The meshes that the campus group has in \<open>s'\<close> beyond those it has in \<open>s\<close>.\<close>

definition added :: "world \<Rightarrow> world \<Rightarrow> mesh list" where
  "added s s' = drop (length (campusGroup s)) (campusGroup s')"

text \<open>From \<open>s\<close> to \<open>s'\<close> the campus group only grows, by meshes that satisfy \<open>Q\<close>.\<close>

definition extends :: "(mesh \<Rightarrow> bool) \<Rightarrow> world \<Rightarrow> world \<Rightarrow> bool" where
  "extends Q s s' = (\<exists>ms. campusGroup s' = campusGroup s @ ms \<and> (\<forall>m\<in>set ms. Q m))"







text \<open>The calls recorded in \<open>s'\<close> beyond those recorded in \<open>s\<close>.\<close>

definition emitted :: "world \<Rightarrow> world \<Rightarrow> event list" where
  "emitted s s' = drop (length (trace s)) (trace s')"



text \<open>The colour reset that \<^verbatim>\<open>highlightBuilding\<close> begins with, as calls and as a state change.\<close>

definition cleared :: "world \<Rightarrow> event list" where
  "cleared s = (case highlightedBuilding s of None \<Rightarrow> [] | Some i \<Rightarrow> if has_emissive s i then [SetHex i 0] else [])"

definition recolour :: "nat \<Rightarrow> nat \<Rightarrow> world \<Rightarrow> world" where
  "recolour i h s = emit (SetHex i h)
     (s\<lparr>campusGroup := (campusGroup s)
          [i := (campusGroup s ! i)\<lparr>material := Some ((the (material_at s i))\<lparr>emissive := Some h\<rparr>)\<rparr>]\<rparr>)"

definition unhighlight :: "world \<Rightarrow> world" where
  "unhighlight s = (case highlightedBuilding s of None \<Rightarrow> s | Some i \<Rightarrow> if has_emissive s i then recolour i 0 s else s)"

text \<open>
  Read from the calls made so far: the batches of fetches, in order; the number of
  promises that have settled; the number of timeouts set; the number of fetches made;
  and whether the loader has logged that all buildings are loaded, which it does right
  before it starts the timeline.
\<close>

fun batches :: "event list \<Rightarrow> string list list" where
  "batches [] = []"
| "batches (FetchBatch us # es) = us # batches es"
| "batches (e # es) = batches es"

fun settled :: "event list \<Rightarrow> nat" where
  "settled [] = 0"
| "settled (Settled f ok # es) = Suc (settled es)"
| "settled (e # es) = settled es"

fun timeouts :: "event list \<Rightarrow> nat" where
  "timeouts [] = 0"
| "timeouts (SetTimeout d # es) = Suc (timeouts es)"
| "timeouts (e # es) = timeouts es"

definition fetched :: "event list \<Rightarrow> nat" where
  "fetched tr = length (concat (batches tr))"

fun is_LogLoaded :: "event \<Rightarrow> bool" where
  "is_LogLoaded (LogLoaded n) = True"
| "is_LogLoaded e = False"

definition fully_loaded :: "event list \<Rightarrow> bool" where
  "fully_loaded tr = (filter is_LogLoaded tr \<noteq> [])"

text \<open>
  The \<open>k\<close>-th block of at most \<^verbatim>\<open>buildingsPerBatch\<close> files of the list, as the URLs of
  those that have a name; the files that have a name; and whether the fetch of a file is
  fulfilled.
\<close>

definition batch_at :: "string list \<Rightarrow> nat \<Rightarrow> string list" where
  "batch_at files k =
     map url (filter (\<lambda>f. f \<noteq> []) (take buildingsPerBatch (drop (k * buildingsPerBatch) files)))"

definition named :: "string list \<Rightarrow> string list" where
  "named fs = filter (\<lambda>f. f \<noteq> []) fs"

definition okf :: "env \<Rightarrow> string \<Rightarrow> bool" where
  "okf E f = (fetchJson E (url f) \<noteq> None)"

text \<open>
  \<open>at_each Q pre es\<close>: every event of \<open>es\<close> satisfies \<open>Q\<close> together with the events
  before it (\<open>pre\<close>, then the earlier events of \<open>es\<close>). At a batch of fetches every
  promise made before has settled and one timeout has been set per earlier batch; a
  timeout is set for 50 ms, when every promise has settled. A call of
  \<^verbatim>\<open>showBuildingsUpToYear\<close> comes after the loader has logged full load.
\<close>

fun at_each :: "(event list \<Rightarrow> event \<Rightarrow> bool) \<Rightarrow> event list \<Rightarrow> event list \<Rightarrow> bool" where
  "at_each Q pre [] = True"
| "at_each Q pre (e # es) = (Q pre e \<and> at_each Q (pre @ [e]) es)"

fun batch_gate :: "event list \<Rightarrow> event \<Rightarrow> bool" where
  "batch_gate pre (FetchBatch us) = (settled pre = fetched pre \<and> timeouts pre = length (batches pre))"
| "batch_gate pre (SetTimeout d) = (d = 50 \<and> settled pre = fetched pre)"
| "batch_gate pre e = True"



text \<open>
  Events that the loader does not count, and steps that change nothing of the loader
  but add such events.
\<close>

fun aside :: "event \<Rightarrow> bool" where
  "aside (RegisterBuilding n i) = True"
| "aside (SetPaused b) = True"
| "aside (GetBuildingInfo b) = True"
| "aside (InfoPanelUpdate x) = True"
| "aside (SetHex i h) = True"
| "aside e = False"

fun loader_event :: "event \<Rightarrow> bool" where
  "loader_event (FetchBatch us) = True"
| "loader_event (Settled f ok) = True"
| "loader_event (SetTimeout d) = True"
| "loader_event (LogLoaded n) = True"
| "loader_event e = False"

definition quiet :: "world \<Rightarrow> world \<Rightarrow> bool" where
  "quiet s s' = (loadedCount s' = loadedCount s \<and> pending s' = pending s \<and> endIndex s' = endIndex s
     \<and> pendingTimer s' = pendingTimer s \<and> (\<exists>es. trace s' = trace s @ es \<and> (\<forall>e\<in>set es. aside e)))"

text \<open>
  The invariant of the loader. It is in flight (promises pending), waiting for the
  timeout, or done; the batches made are the blocks of the list in order; every fetch
  has settled or is pending; and \<^verbatim>\<open>loadedCount\<close> counts only files fetched with
  success. \<open>pre_batch\<close> is the state in which \<^verbatim>\<open>loadBatch\<close> is called.
\<close>

definition inv0 :: "string list \<Rightarrow> (string \<Rightarrow> bool) \<Rightarrow> nat \<Rightarrow> string list \<Rightarrow> nat \<Rightarrow> nat option \<Rightarrow> event list \<Rightarrow> bool" where
  "inv0 files ok lc pd ei pt tr =
     (let N = length files; nb = length (batches tr) in
        0 < nb \<and> min (buildingsPerBatch * nb) N = ei
      \<and> batches tr = map (batch_at files) [0..<nb]
      \<and> settled tr + length pd = fetched tr
      \<and> timeouts tr + (if pt = None then 1 else 0) = nb
      \<and> (pt = None \<longrightarrow> nb = 1 \<or> buildingsPerBatch * (nb - 1) < N \<or> (pd = [] \<and> lc < N))
      \<and> lc + length (filter ok pd) \<le> length (filter ok (named (take ei files)))
      \<and> at_each batch_gate [] tr)"

definition phase :: "string list \<Rightarrow> nat \<Rightarrow> string list \<Rightarrow> nat \<Rightarrow> nat option \<Rightarrow> event list \<Rightarrow> bool" where
  "phase files lc pd ei pt tr =
     ((pd \<noteq> [] \<and> pt = None \<and> \<not> fully_loaded tr)
    \<or> (pd = [] \<and> pt = Some ei \<and> lc < length files \<and> \<not> fully_loaded tr)
    \<or> (pd = [] \<and> pt = None \<and> fully_loaded tr \<and> length files \<le> lc))"

definition Inv :: "env \<Rightarrow> world \<Rightarrow> bool" where
  "Inv E s =
     (inv0 (buildingFiles E) (okf E) (loadedCount s) (pending s) (endIndex s) (pendingTimer s) (trace s)
      \<and> phase (buildingFiles E) (loadedCount s) (pending s) (endIndex s) (pendingTimer s) (trace s))"

definition pre_batch :: "env \<Rightarrow> world \<Rightarrow> bool" where
  "pre_batch E s =
     (let files = buildingFiles E; nb = length (batches (trace s)) in
        pending s = [] \<and> pendingTimer s = None \<and> \<not> fully_loaded (trace s)
      \<and> min (buildingsPerBatch * nb) (length files) = endIndex s
      \<and> batches (trace s) = map (batch_at files) [0..<nb]
      \<and> settled (trace s) = fetched (trace s)
      \<and> timeouts (trace s) = nb
      \<and> (nb = 0 \<or> loadedCount s < length files)
      \<and> loadedCount s \<le> length (filter (okf E) (named (take (endIndex s) files)))
      \<and> at_each batch_gate [] (trace s))"

section \<open>Sample data\<close>

definition square :: ring where
  "square = [(20.961, 41.986), (20.962, 41.986), (20.962, 41.987), (20.961, 41.987)]"

definition courtyard :: ring where
  "courtyard = [(20.9612, 41.9862), (20.9618, 41.9862), (20.9615, 41.9868)]"

definition segment :: ring where
  "segment = [(20.961, 41.986), (20.962, 41.986)]"

definition hall :: feature where
  "hall = \<lparr>properties = Some [''estimated_height'' \<mapsto> Number (Fin 12)],
           geometry = Some (Polygon [Some square, Some courtyard])\<rparr>"

definition flat_hall :: feature where
  "flat_hall = \<lparr>properties = Some [''estimated_height'' \<mapsto> Number (Fin 0)],
                geometry = Some (Polygon [Some square])\<rparr>"

definition stone :: material where
  "stone = \<lparr>name = ''stone'', emissive = Some 0, emissiveIntensity = 1\<rparr>"

definition paint :: material where
  "paint = \<lparr>name = ''paint'', emissive = None, emissiveIntensity = 1\<rparr>"

definition no_number :: "string \<Rightarrow> jsnum" where
  "no_number s = NaN"

definition one_file :: "string \<Rightarrow> featurecollection option" where
  "one_file u =
     (if u = ''campus/buildings/building_001.geojson'' then Some \<lparr>features = Some [hall]\<rparr> else None)"

definition first_hit :: "real \<times> real \<Rightarrow> mesh list \<Rightarrow> nat list" where
  "first_hit p ms = (if ms = [] then [] else [0])"

definition campus :: env where
  "campus = \<lparr>buildingFiles = [''building_001.geojson''], fetchJson = one_file, strnum = no_number,
              buildingMaterials = [stone], walkwayMaterial = paint, roadMaterial = paint,
              intersectObjects = first_hit\<rparr>"

definition building_options :: options where
  "building_options =
     \<lparr>isBuilding = True, materials = Some [stone], opt_material = None,
      opt_extrudeSettings = \<lparr>depth = Fin 0.1, bevelEnabled = None\<rparr>, y_position = 0\<rparr>"

definition path_feature :: feature where
  "path_feature = \<lparr>properties = Some [''fill'' \<mapsto> String ''#555555''],
                   geometry = Some (Polygon [Some square])\<rparr>"

definition bed_feature :: feature where
  "bed_feature = \<lparr>properties = Some [''fill'' \<mapsto> String ''#ff0000''],
                  geometry = Some (Polygon [Some courtyard])\<rparr>"

definition stub_feature :: feature where
  "stub_feature = \<lparr>properties = Some [''fill'' \<mapsto> String ''#555555''],
                   geometry = Some (Polygon [Some segment])\<rparr>"

definition walkways :: featurecollection where
  "walkways = \<lparr>features = Some [path_feature, bed_feature]\<rparr>"

definition stub_walkways :: featurecollection where
  "stub_walkways = \<lparr>features = Some [stub_feature]\<rparr>"

definition exhibit :: "material \<Rightarrow> string \<Rightarrow> mesh" where
  "exhibit mat n =
     (new_mesh (trace_ring square) \<lparr>depth = Fin 10, bevelEnabled = Some False\<rparr> (Some mat))
        \<lparr>userData_buildingName := Some n, userData_fileName := Some n\<rparr>"

definition showroom :: world where
  "showroom = initial\<lparr>campusGroup := [exhibit stone ''001'', exhibit paint ''shed'']\<rparr>"

definition no_file :: "string \<Rightarrow> featurecollection option" where
  "no_file u = None"

definition rejected :: env where
  "rejected = campus\<lparr>fetchJson := no_file\<rparr>"

definition missing_idk :: "string \<Rightarrow> featurecollection option" where
  "missing_idk u =
     (if u = ''campus/buildings/building_idk.geojson'' then None else Some \<lparr>features = Some [hall]\<rparr>)"

definition whole_campus :: env where
  "whole_campus = campus\<lparr>buildingFiles := campus_buildingFiles, fetchJson := missing_idk\<rparr>"

section \<open>Properties of the projection\<close>


section \<open>Loops over features and polygons\<close>

lemma extends_refl: "extends Q s s"
  by (simp add: extends_def)

lemma extends_trans: "extends Q s s' \<Longrightarrow> extends Q s' s'' \<Longrightarrow> extends Q s s''"
  by (auto simp: extends_def)


lemma extends_added: "extends Q s s' \<Longrightarrow> \<forall>m\<in>set (added s s'). Q m"
  by (auto simp: extends_def added_def)

lemma forEach_extends:
  assumes "\<And>x s. x \<in> set xs \<Longrightarrow> extends Q s (snd (f x s))"
  shows "extends Q s (snd (forEach f xs s))"
  using assms
proof (induction xs arbitrary: s)
  case Nil
  then show ?case by (simp add: extends_refl)
next
  case (Cons x xs)
  have 1: "extends Q s (snd (f x s))" using Cons.prems by simp
  show ?case
  proof (cases "f x s")
    case (Pair e s')
    show ?thesis
    proof (cases e)
      case None
      have "extends Q s' (snd (forEach f xs s'))" using Cons.IH Cons.prems by simp
      with 1 Pair None show ?thesis by (auto intro: extends_trans)
    next
      case (Some a)
      with 1 Pair show ?thesis by simp
    qed
  qed
qed


lemma forEach_skip:
  "(\<And>s. f p s = (None, s)) \<Longrightarrow> forEach f (xs @ p # ys) s = forEach f (xs @ ys) s"
  by (induction xs arbitrary: s) (auto split: prod.splits option.splits)

lemmas geo_defs = loadBatch_data_def loadBatch_feature_def loadBatch_polygon_def
  loadGeoJson_def loadGeoJson_feature_def loadGeoJson_polygon_def polygons_def
  loadWalkways_def loadWalkways_main_def coordinates0_path_def is_hole_feature_def
  new_mesh_def add_def emit_def added_def initial_def height_def estimated_height_def truthy_def
  projected_def projectCoord_def scale_def road_options_def

lemmas sample_defs = square_def courtyard_def segment_def hall_def flat_hall_def stone_def
  paint_def no_number_def campus_def building_options_def path_feature_def bed_feature_def
  stub_feature_def walkways_def stub_walkways_def

section \<open>Extrusion depth\<close>

lemma height_cases:
  "height sn f = (let n = ToNumber sn (estimated_height f) in if n = NaN \<or> n = Fin 0 then Fin 10 else n)"
  by (simp add: height_def truthy_def Let_def)

lemma loadBatch_polygon_extends:
  "extends (\<lambda>m. holes m = [] \<and> depth (settings m) = height (strnum E) f) s
     (snd (loadBatch_polygon E fileName f p s))"
  by (simp add: loadBatch_polygon_def Let_def new_mesh_def extends_def add_def emit_def
      split: option.splits)

lemma loadBatch_feature_extends:
  "extends (\<lambda>m. holes m = [] \<and> depth (settings m) = height (strnum E) f) s
     (snd (loadBatch_feature E fileName f s))"
  by (simp add: loadBatch_feature_def extends_refl forEach_extends loadBatch_polygon_extends
      split: option.splits)

lemma loadGeoJson_polygon_depth:
  assumes "isBuilding opts" "materials opts = Some ms" "ms \<noteq> []"
  shows "extends (\<lambda>m. depth (settings m) = height sn f) s (snd (loadGeoJson_polygon sn opts f p s))"
  using assms
  by (simp add: loadGeoJson_polygon_def Let_def new_mesh_def extends_def add_def split: option.splits)

lemma loadGeoJson_feature_depth:
  assumes "isBuilding opts" "materials opts = Some ms" "ms \<noteq> []"
  shows "extends (\<lambda>m. depth (settings m) = height sn f) s (snd (loadGeoJson_feature sn opts f s))"
  by (simp add: loadGeoJson_feature_def extends_refl forEach_extends
      loadGeoJson_polygon_depth [OF assms] split: option.splits)

text \<open>
  C8, as stated, at a building feature whose \<^verbatim>\<open>estimated_height\<close> is the number 0: the
  property is present and a number, and the mesh is extruded by 10.
\<close>

theorem zero_height_defaults:
  "estimated_height flat_hall = Number (Fin 0)
   \<and> map (\<lambda>m. depth (settings m))
        (added initial (snd (loadBatch_feature campus ''building_001.geojson'' flat_hall initial)))
     = [Fin 10]"
  by (simp add: geo_defs sample_defs)

text \<open>
  C8, amended. Every mesh built for a building feature is extruded by
  \<^verbatim>\<open>Number(properties.estimated_height)\<close> when that conversion yields neither \<^verbatim>\<open>NaN\<close>
  nor zero, and by the default 10 when it yields \<^verbatim>\<open>NaN\<close> (as for an absent property)
  or zero. This holds in \<^verbatim>\<open>loadBatch\<close>, and in \<^verbatim>\<open>loadGeoJson\<close> when its options ask for
  buildings and give materials.
\<close>

theorem extrusion_depth:
  "(\<forall>m\<in>set (added s (snd (loadBatch_feature E fileName f s))).
      depth (settings m) =
        (let n = ToNumber (strnum E) (estimated_height f) in if n = NaN \<or> n = Fin 0 then Fin 10 else n))
   \<and> (isBuilding opts \<and> materials opts = Some ms \<and> ms \<noteq> [] \<longrightarrow>
       (\<forall>m\<in>set (added s (snd (loadGeoJson_feature sn opts f s))).
          depth (settings m) =
            (let n = ToNumber sn (estimated_height f) in if n = NaN \<or> n = Fin 0 then Fin 10 else n)))"
  using extends_added [OF loadBatch_feature_extends [of E f s fileName]]
    extends_added [OF loadGeoJson_feature_depth [of opts ms sn f s]]
  by (simp add: height_cases)

theorem extrusion_depth_witness:
  "depth (settings (hd (added initial
      (snd (loadBatch_feature campus ''building_001.geojson'' hall initial))))) = Fin 12
   \<and> depth (settings (hd (added initial
      (snd (loadGeoJson_feature no_number building_options hall initial))))) = Fin 12"
proof -
  let ?A = "added initial (snd (loadBatch_feature campus ''building_001.geojson'' hall initial))"
  let ?B = "added initial (snd (loadGeoJson_feature no_number building_options hall initial))"
  have a: "hd ?A \<in> set ?A" by (simp add: geo_defs sample_defs)
  have b: "hd ?B \<in> set ?B" by (simp add: geo_defs sample_defs)
  have c: "isBuilding building_options \<and> materials building_options = Some [stone] \<and> [stone] \<noteq> []"
    by (simp add: building_options_def)
  have n: "ToNumber sn (estimated_height hall) = Fin 12" for sn
    by (simp add: estimated_height_def hall_def)
  have s: "strnum campus = no_number" by (simp add: campus_def)
  from extrusion_depth [of initial campus "''building_001.geojson''" hall building_options "[stone]" no_number]
    a b c
  show ?thesis by (simp add: n)
qed

section \<open>Rings after the first\<close>
















section \<open>Rings with fewer than three points\<close>

text \<open>
  The road and the building loaders skip a polygon whose first ring has fewer than three
  points, and go on with the polygons that follow.
\<close>

lemma short_ring_skipped:
  "length r < 3 \<Longrightarrow>
     loadGeoJson_polygon sn opts f (Some (Some r # rs)) s = (None, s)
   \<and> loadBatch_polygon E fn f (Some (Some r # rs)) s = (None, s)"
  by (simp add: loadGeoJson_polygon_def loadBatch_polygon_def)

lemma short_ring_others_unaffected:
  assumes "length r < 3"
  shows "forEach (loadGeoJson_polygon sn opts f) (ps @ Some (Some r # rs) # qs) s =
         forEach (loadGeoJson_polygon sn opts f) (ps @ qs) s"
    and "forEach (loadBatch_polygon E fn f) (ps @ Some (Some r # rs) # qs) s =
         forEach (loadBatch_polygon E fn f) (ps @ qs) s"
  using assms by (simp_all add: forEach_skip short_ring_skipped)

text \<open>
  C3, in the walkway path: \<^verbatim>\<open>loadWalkways\<close> has no test of the ring length. For a
  walkway file with one feature whose ring has two points it throws nothing and adds a
  mesh extruded from the two-point shape.
\<close>

theorem walkway_ring_unguarded:
  "length segment = 2
   \<and> fst (loadWalkways paint stub_walkways initial) = None
   \<and> map shape (campusGroup (snd (loadWalkways paint stub_walkways initial)))
     = [[MoveTo (Fin 100, Fin 100), LineTo (Fin 200, Fin 100)]]"
  by (simp add: geo_defs sample_defs)

section \<open>Walkway holes\<close>









section \<open>Selection and highlight\<close>

lemma setHex_recolour: "has_emissive s i \<Longrightarrow> setHex i h s = Inr (recolour i h s)"
  by (auto simp: has_emissive_def setHex_def recolour_def split: option.splits)

lemma setHex_throws: "\<not> has_emissive s i \<Longrightarrow> setHex i h s = Inl TypeError"
  by (auto simp: has_emissive_def setHex_def split: option.splits)

lemma material_at_recolour:
  "has_emissive s i \<Longrightarrow> material_at (recolour i h s) j =
     (if j = i then Some ((the (material_at s i))\<lparr>emissive := Some h\<rparr>) else material_at s j)"
  by (auto simp: has_emissive_def material_at_def recolour_def emit_def split: option.splits if_splits)

lemma recolour_fields [simp]:
  "length (campusGroup (recolour i h s)) = length (campusGroup s)"
  "highlightedBuilding (recolour i h s) = highlightedBuilding s"
  "trace (recolour i h s) = trace s @ [SetHex i h]"
  "loadedCount (recolour i h s) = loadedCount s"
  "pending (recolour i h s) = pending s"
  "endIndex (recolour i h s) = endIndex s"
  "pendingTimer (recolour i h s) = pendingTimer s"
  "buildingMaterialCursor (recolour i h s) = buildingMaterialCursor s"
  by (simp_all add: recolour_def emit_def)

lemma has_emissive_recolour: "has_emissive s i \<Longrightarrow> has_emissive (recolour i h s) j = has_emissive s j"
  by (auto simp: has_emissive_def material_at_recolour split: option.splits)

lemma buildingName_recolour: "buildingName (recolour i h s) j = buildingName s j"
  by (cases "j = i") (auto simp: buildingName_def recolour_def emit_def Let_def split: option.splits)

lemma highlightBuilding_eq:
  "highlightBuilding mesh s =
     Inr (case mesh of
            None \<Rightarrow> (unhighlight s)\<lparr>highlightedBuilding := None\<rparr>
          | Some j \<Rightarrow> if has_emissive s j
                      then (recolour j 0x1a304c (unhighlight s))\<lparr>highlightedBuilding := Some j\<rparr>
                      else (unhighlight s)\<lparr>highlightedBuilding := None\<rparr>)"
proof -
  have 1: "(case highlightedBuilding s of None \<Rightarrow> Inr s
            | Some i \<Rightarrow> if has_emissive s i then setHex i 0x000000 s else Inr s) = Inr (unhighlight s)"
    by (simp add: unhighlight_def setHex_recolour split: option.splits)
  have 2: "has_emissive (unhighlight s) j = has_emissive s j" for j
    by (simp add: unhighlight_def has_emissive_recolour split: option.splits)
  show ?thesis
    unfolding highlightBuilding_def 1
    by (simp add: 2 setHex_recolour split: option.splits)
qed

lemma unhighlight_fields [simp]:
  "length (campusGroup (unhighlight s)) = length (campusGroup s)"
  "highlightedBuilding (unhighlight s) = highlightedBuilding s"
  "trace (unhighlight s) = trace s @ cleared s"
  "loadedCount (unhighlight s) = loadedCount s"
  "pending (unhighlight s) = pending s"
  "endIndex (unhighlight s) = endIndex s"
  "pendingTimer (unhighlight s) = pendingTimer s"
  by (simp_all add: unhighlight_def cleared_def split: option.splits)

lemma has_emissive_unhighlight: "has_emissive (unhighlight s) j = has_emissive s j"
  by (simp add: unhighlight_def has_emissive_recolour split: option.splits)

lemma material_at_unhighlight:
  "material_at (unhighlight s) j =
     (if highlightedBuilding s = Some j \<and> has_emissive s j
      then Some ((the (material_at s j))\<lparr>emissive := Some 0\<rparr>) else material_at s j)"
  by (auto simp: unhighlight_def material_at_recolour split: option.splits)

lemma material_at_update [simp]:
  "material_at (s\<lparr>highlightedBuilding := x\<rparr>) j = material_at s j"
  "material_at (emit e s) j = material_at s j"
  by (simp_all add: material_at_def emit_def)



lemma highlightBuilding_trace:
  "highlightBuilding mesh s = Inr s' \<Longrightarrow>
   trace s' = trace s @ cleared s @
     (case mesh of None \<Rightarrow> [] | Some j \<Rightarrow> if has_emissive s j then [SetHex j 0x1a304c] else [])"
  by (auto simp: highlightBuilding_eq split: option.splits if_splits)


lemma handlePointerClick_eq:
  "handlePointerClick hits s =
     Inr (case hits of
            [] \<Rightarrow> emit (InfoPanelUpdate None) (projr (highlightBuilding None s))
          | m # rest \<Rightarrow>
              (case buildingName s m of
                 None \<Rightarrow> s
               | Some b \<Rightarrow>
                   emit (InfoPanelUpdate (Some b))
                     (emit (GetBuildingInfo b) (projr (highlightBuilding (Some m) s)))))"
  by (simp add: handlePointerClick_def highlightBuilding_eq split: list.splits option.splits)








text \<open>
  C9. \<^verbatim>\<open>highlightBuilding\<close> never throws, whatever mesh it is given and whatever mesh
  was highlighted before. A mesh whose material has no emissive colour is skipped: its
  material stays as it is and \<^verbatim>\<open>setHex\<close> is not called on it.
\<close>

theorem highlight_never_throws:
  "\<exists>s'. highlightBuilding mesh s = Inr s'
     \<and> (\<forall>j. \<not> has_emissive s j \<longrightarrow>
           material_at s' j = material_at s j \<and> (\<forall>h. SetHex j h \<notin> set (emitted s s')))"
proof -
  obtain s' where s': "highlightBuilding mesh s = Inr s'" by (simp add: highlightBuilding_eq)
  have "material_at s' j = material_at s j \<and> (\<forall>h. SetHex j h \<notin> set (emitted s s'))"
    if j: "\<not> has_emissive s j" for j
  proof
    have u: "material_at (unhighlight s) j = material_at s j"
      using j by (simp add: material_at_unhighlight)
    show "material_at s' j = material_at s j"
      using s' j u
      by (auto simp: highlightBuilding_eq material_at_recolour has_emissive_unhighlight
          split: option.splits if_splits)
    show "\<forall>h. SetHex j h \<notin> set (emitted s s')"
      using j highlightBuilding_trace [OF s']
      by (auto simp: emitted_def cleared_def split: option.splits if_splits)
  qed
  with s' show ?thesis by blast
qed

theorem highlight_never_throws_witness:
  "\<not> has_emissive showroom 1
   \<and> material_at (projr (highlightBuilding (Some 1) showroom)) 1 = Some paint"
proof -
  have e: "\<not> has_emissive showroom 1"
    by (simp add: has_emissive_def material_at_def showroom_def exhibit_def new_mesh_def paint_def)
  have m: "material_at showroom 1 = Some paint"
    by (simp add: material_at_def showroom_def exhibit_def new_mesh_def)
  from highlight_never_throws [of "Some 1" showroom] e m
  show ?thesis by auto
qed

section \<open>Counting loader events\<close>

lemma batches_append: "batches (xs @ ys) = batches xs @ batches ys"
  by (induction xs rule: batches.induct) simp_all

lemma settled_append: "settled (xs @ ys) = settled xs + settled ys"
  by (induction xs rule: settled.induct) simp_all

lemma timeouts_append: "timeouts (xs @ ys) = timeouts xs + timeouts ys"
  by (induction xs rule: timeouts.induct) simp_all

lemma aside_counts:
  "\<forall>e\<in>set es. aside e \<Longrightarrow> batches es = [] \<and> settled es = 0 \<and> timeouts es = 0 \<and> \<not> fully_loaded es"
proof (induction es)
  case Nil
  then show ?case by (simp add: fully_loaded_def)
next
  case (Cons e es)
  then show ?case by (cases e) (simp_all add: fully_loaded_def)
qed

section \<open>Steps that leave the loader alone\<close>

lemma quiet_refl: "quiet s s"
  by (simp add: quiet_def)

lemma quiet_trans: "quiet s s' \<Longrightarrow> quiet s' s'' \<Longrightarrow> quiet s s''"
  by (auto simp: quiet_def)

lemma forEach_quiet:
  assumes "\<And>x s. x \<in> set xs \<Longrightarrow> quiet s (snd (f x s))"
  shows "quiet s (snd (forEach f xs s))"
  using assms
proof (induction xs arbitrary: s)
  case Nil
  then show ?case by (simp add: quiet_refl)
next
  case (Cons x xs)
  have 1: "quiet s (snd (f x s))" using Cons.prems by simp
  show ?case
  proof (cases "f x s")
    case (Pair e s')
    show ?thesis
    proof (cases e)
      case None
      have "quiet s' (snd (forEach f xs s'))" using Cons.IH Cons.prems by simp
      with 1 Pair None show ?thesis by (auto intro: quiet_trans)
    next
      case (Some a)
      with 1 Pair show ?thesis by simp
    qed
  qed
qed

lemma loadGeoJson_quiet: "quiet s (snd (loadGeoJson sn opts data s))"
proof -
  have p: "quiet t (snd (loadGeoJson_polygon sn opts f p t))" for f p t
    by (simp add: loadGeoJson_polygon_def Let_def quiet_def add_def split: option.splits)
  have "quiet t (snd (loadGeoJson_feature sn opts f t))" for f t
    by (simp add: loadGeoJson_feature_def quiet_refl forEach_quiet p split: option.splits)
  then show ?thesis
    by (simp add: loadGeoJson_def quiet_refl forEach_quiet split: option.splits)
qed

lemma loadWalkways_quiet: "quiet s (snd (loadWalkways wm data s))"
proof -
  have "quiet t (snd (loadWalkways_main wm H f t))" for H f t
    by (simp add: loadWalkways_main_def quiet_def add_def split: sum.splits)
  then show ?thesis
    by (simp add: loadWalkways_def quiet_refl forEach_quiet split: option.splits sum.splits)
qed

lemma loadBatch_feature_quiet: "quiet s (snd (loadBatch_feature E fn f s))"
proof -
  have "quiet t (snd (loadBatch_polygon E fn f p t))" for p t
    by (simp add: loadBatch_polygon_def Let_def quiet_def add_def emit_def split: option.splits)
  then show ?thesis
    by (simp add: loadBatch_feature_def quiet_refl forEach_quiet split: option.splits)
qed

section \<open>The loader invariant\<close>

lemma at_each_append: "at_each Q pre (xs @ ys) = (at_each Q pre xs \<and> at_each Q (pre @ xs) ys)"
  by (induction xs arbitrary: pre) simp_all

lemma at_each_aside: "\<forall>e\<in>set es. aside e \<Longrightarrow> at_each batch_gate pre es"
proof (induction es arbitrary: pre)
  case Nil
  then show ?case by simp
next
  case (Cons e es)
  then show ?case by (cases e) simp_all
qed

lemma at_each_split: "at_each Q p tr = (\<forall>pre e post. tr = pre @ e # post \<longrightarrow> Q (p @ pre) e)"
proof (induction tr arbitrary: p)
  case Nil
  then show ?case by simp
next
  case (Cons a tr)
  show ?case
  proof
    assume l: "at_each Q p (a # tr)"
    show "\<forall>pre e post. a # tr = pre @ e # post \<longrightarrow> Q (p @ pre) e"
    proof (intro allI impI)
      fix pre e post assume eq: "a # tr = pre @ e # post"
      show "Q (p @ pre) e"
      proof (cases pre)
        case Nil
        with eq l show ?thesis by simp
      next
        case (Cons b pre')
        with eq have "b = a" "tr = pre' @ e # post" by simp_all
        with l Cons.IH [of "p @ [a]"] Cons show ?thesis by simp
      qed
    qed
  next
    assume r: "\<forall>pre e post. a # tr = pre @ e # post \<longrightarrow> Q (p @ pre) e"
    have 1: "Q p a" using r [rule_format, of "[]" a tr] by simp
    have "\<forall>pre e post. tr = pre @ e # post \<longrightarrow> Q ((p @ [a]) @ pre) e"
    proof (intro allI impI)
      fix pre e post assume "tr = pre @ e # post"
      then have "a # tr = (a # pre) @ e # post" by simp
      from r [rule_format, OF this] show "Q ((p @ [a]) @ pre) e" by simp
    qed
    with Cons.IH [of "p @ [a]"] 1 show "at_each Q p (a # tr)" by simp
  qed
qed

lemma nth_block:
  "k \<le> length xs \<Longrightarrow> map (\<lambda>i. xs ! i) [k..<min (k + b) (length xs)] = take b (drop k xs)"
  by (auto intro!: nth_equalityI simp: min_def)

lemma take_more:
  assumes "k \<le> e" "e \<le> length xs"
  shows "take e xs = take k xs @ map (\<lambda>i. xs ! i) [k..<e]"
proof -
  have 1: "map (\<lambda>i. xs ! i) [k..<e] = take (e - k) (drop k xs)"
    using assms by (auto intro!: nth_equalityI)
  have "take e xs = take (k + (e - k)) xs" using assms by simp
  also have "\<dots> = take k xs @ take (e - k) (drop k xs)" by (rule take_add)
  finally show ?thesis by (simp add: 1)
qed

lemmas counts_append = batches_append settled_append timeouts_append at_each_append
  fetched_def fully_loaded_def

lemma promise_all_then_Inv:
  assumes "inv0 (buildingFiles E) (okf E) (loadedCount s) [] (endIndex s) None (trace s)"
    and "pending s = []" "pendingTimer s = None" "\<not> fully_loaded (trace s)"
  shows "Inv E (promise_all_then E s)"
proof (cases "loadedCount s < length (buildingFiles E)")
  case True
  then show ?thesis
    using assms
    by (auto simp: Inv_def inv0_def phase_def promise_all_then_def emit_def Let_def counts_append)
next
  case False
  then show ?thesis
    using assms
    by (auto simp: Inv_def inv0_def phase_def promise_all_then_def startTimeline_def emit_def Let_def
        counts_append)
qed

lemma loadBatch_promise_effect:
  "\<exists>regs ok. (\<forall>e\<in>set regs. aside e) \<and> (ok \<longrightarrow> okf E f)
     \<and> loadedCount (loadBatch_promise E f s) = loadedCount s + (if ok then 1 else 0)
     \<and> pending (loadBatch_promise E f s) = pending s
     \<and> endIndex (loadBatch_promise E f s) = endIndex s
     \<and> pendingTimer (loadBatch_promise E f s) = pendingTimer s
     \<and> trace (loadBatch_promise E f s) = trace s @ regs @ [Settled f ok]"
proof (cases "fetchJson E (url f)")
  case None
  then show ?thesis
    by (intro exI [of _ "[]"] exI [of _ False]) (simp add: loadBatch_promise_def emit_def)
next
  case (Some data)
  define r where "r = (case features data of None \<Rightarrow> (None, s)
                       | Some fs \<Rightarrow> forEach (loadBatch_feature E f) fs s)"
  have q: "quiet s (snd r)"
    by (simp add: r_def quiet_refl forEach_quiet loadBatch_feature_quiet split: option.splits)
  then obtain regs where regs: "trace (snd r) = trace s @ regs" "\<forall>e\<in>set regs. aside e"
    by (auto simp: quiet_def)
  have d: "loadBatch_data E f data s =
        (case r of (Some e, s') \<Rightarrow> (Some e, s') | (None, s') \<Rightarrow> (None, s'\<lparr>loadedCount := loadedCount s' + 1\<rparr>))"
    by (simp add: loadBatch_data_def r_def)
  show ?thesis
  proof (cases r)
    case (Pair e s')
    with q regs have s': "loadedCount s' = loadedCount s" "pending s' = pending s"
      "endIndex s' = endIndex s" "pendingTimer s' = pendingTimer s" "trace s' = trace s @ regs"
      by (simp_all add: quiet_def)
    show ?thesis
    proof (cases e)
      case None
      with Pair Some d s' regs(2) show ?thesis
        by (intro exI [of _ regs] exI [of _ True])
           (simp add: loadBatch_promise_def emit_def okf_def)
    next
      case (Some a)
      with Pair \<open>fetchJson E (url f) = Some data\<close> d s' regs(2) show ?thesis
        by (intro exI [of _ regs] exI [of _ False])
           (simp add: loadBatch_promise_def emit_def)
    qed
  qed
qed

lemma loadBatch_Inv:
  assumes "pre_batch E s"
  shows "Inv E (loadBatch E (endIndex s) s)"
proof -
  define files where "files = buildingFiles E"
  define nb where "nb = length (batches (trace s))"
  define k where "k = endIndex s"
  define e where "e = min (k + buildingsPerBatch) (length files)"
  define batch where "batch = filter (\<lambda>fileName. fileName \<noteq> []) (map (\<lambda>i. files ! i) [k..<e])"
  define s1 where "s1 = (emit (FetchBatch (map url batch)) s)\<lparr>pending := batch, endIndex := e\<rparr>"
  note p = assms [unfolded pre_batch_def Let_def, folded files_def nb_def k_def]
  have k: "k = min (buildingsPerBatch * nb) (length files)" using p by auto
  then have kN: "k \<le> length files" by simp
  have blk: "map (\<lambda>i. files ! i) [k..<e] = take buildingsPerBatch (drop (nb * buildingsPerBatch) files)"
  proof (cases "buildingsPerBatch * nb \<le> length files")
    case True
    then have "k = nb * buildingsPerBatch" using k by (simp add: mult.commute)
    then show ?thesis using nth_block [OF kN, of buildingsPerBatch] by (simp add: e_def)
  next
    case False
    then have "k = length files" "length files \<le> nb * buildingsPerBatch"
      using k by (simp_all add: mult.commute)
    then show ?thesis by (simp add: e_def)
  qed
  have c: "map url batch = batch_at files nb"
    by (simp add: batch_def blk batch_at_def)
  have d: "e = min (buildingsPerBatch * (nb + 1)) (length files)"
    using k by (auto simp: e_def min_def)
  have ke: "k \<le> e" "e \<le> length files" using kN by (simp_all add: e_def)
  have tk: "named (take e files) = named (take k files) @ batch"
    by (simp add: take_more [OF ke] named_def batch_def)
  have lb: "loadBatch E (endIndex s) s = (if batch = [] then promise_all_then E s1 else s1)"
    by (simp add: loadBatch_def Let_def s1_def batch_def e_def k_def files_def)
  have f1: "loadedCount s1 = loadedCount s" "pending s1 = batch" "endIndex s1 = e"
    "pendingTimer s1 = None" "trace s1 = trace s @ [FetchBatch (map url batch)]"
    using p by (simp_all add: s1_def emit_def)
  have nb1: "nb = 0 \<or> loadedCount s < length files" using p by simp
  have b0: "batch \<noteq> [] \<Longrightarrow> buildingsPerBatch * nb < length files"
  proof -
    assume "batch \<noteq> []"
    then have "k < e" by (cases "k < e") (simp_all add: batch_def)
    then have "k < length files" using ke by simp
    then show ?thesis using k by (simp add: min_def split: if_splits)
  qed
  have pb: "batches (trace s) = map (batch_at files) [0..<nb]" using p by simp
  have ps: "settled (trace s) = fetched (trace s)" using p by simp
  have pt: "timeouts (trace s) = nb" using p by simp
  have pj: "loadedCount s \<le> length (filter (okf E) (named (take k files)))" using p by blast
  have pg: "at_each batch_gate [] (trace s)" using p by simp
  have nb': "length (batches (trace s1)) = nb + 1"
    by (simp add: f1 batches_append nb_def)
  have g2: "batches (trace s1) = map (batch_at files) [0..<nb + 1]"
    using pb by (simp add: f1 batches_append c)
  have g3: "settled (trace s1) + length (pending s1) = fetched (trace s1)"
    using ps by (simp add: f1 settled_append fetched_def batches_append)
  have g4: "timeouts (trace s1) + (if pendingTimer s1 = None then 1 else 0) = nb + 1"
    using pt by (simp add: f1 timeouts_append)
  have g5: "nb + 1 = 1 \<or> buildingsPerBatch * (nb + 1 - 1) < length files
             \<or> (pending s1 = [] \<and> loadedCount s1 < length files)"
    using nb1 b0 by (auto simp: f1)
  have g6: "loadedCount s1 + length (filter (okf E) (pending s1))
              \<le> length (filter (okf E) (named (take (endIndex s1) files)))"
    using pj by (simp add: f1 tk)
  have g7: "at_each batch_gate [] (trace s1)"
    using pg ps pt by (simp add: f1 at_each_append nb_def)
  have i0: "inv0 files (okf E) (loadedCount s1) (pending s1) (endIndex s1) (pendingTimer s1) (trace s1)"
    unfolding inv0_def Let_def nb'
    using g2 g3 g4 g5 g6 g7 d [symmetric] f1(3,4) by simp
  show ?thesis
  proof (cases "batch = []")
    case True
    have "Inv E (promise_all_then E s1)"
      by (rule promise_all_then_Inv)
         (use i0 True p in \<open>simp_all add: f1 files_def counts_append\<close>)
    with True lb show ?thesis by simp
  next
    case False
    have "phase files (loadedCount s1) (pending s1) (endIndex s1) (pendingTimer s1) (trace s1)"
      using False p by (simp add: phase_def f1 counts_append)
    with i0 False lb show ?thesis by (simp add: Inv_def files_def)
  qed
qed

lemma filter_remove1_le:
  "f \<in> set pd \<Longrightarrow> length (filter P (remove1 f pd)) + (if P f then 1 else 0) = length (filter P pd)"
  by (induction pd) auto

lemma length_remove1_mem: "f \<in> set pd \<Longrightarrow> length (remove1 f pd) + 1 = length pd"
  by (induction pd) auto

lemma settles_Inv:
  assumes "Inv E s"
  shows "Inv E (settles E f s)"
proof (cases "f \<in> set (pending s)")
  case False
  with assms show ?thesis by (simp add: settles_def)
next
  case True
  define files where "files = buildingFiles E"
  define nb where "nb = length (batches (trace s))"
  define s0 where "s0 = s\<lparr>pending := remove1 f (pending s)\<rparr>"
  define s1 where "s1 = loadBatch_promise E f s0"
  from loadBatch_promise_effect [of E f s0]
  obtain regs ok where regs: "\<forall>e\<in>set regs. aside e" and ok: "ok \<longrightarrow> okf E f"
    and f1: "loadedCount s1 = loadedCount s + (if ok then 1 else 0)"
      "pending s1 = remove1 f (pending s)" "endIndex s1 = endIndex s"
      "pendingTimer s1 = pendingTimer s" "trace s1 = trace s @ regs @ [Settled f ok]"
    by (auto simp: s1_def s0_def)
  have st: "settles E f s = (if pending s1 = [] then promise_all_then E s1 else s1)"
    using True by (simp add: settles_def Let_def s1_def s0_def)
  note a = aside_counts [OF regs]
  have ph: "pending s \<noteq> []" "pendingTimer s = None" "\<not> fully_loaded (trace s)"
    using assms True by (auto simp: Inv_def phase_def files_def)
  note i = assms [unfolded Inv_def inv0_def Let_def, folded files_def nb_def]
  have i1: "0 < nb" using i by blast
  have i2: "min (buildingsPerBatch * nb) (length files) = endIndex s" using i by blast
  have i3: "batches (trace s) = map (batch_at files) [0..<nb]" using i by blast
  have i4: "settled (trace s) + length (pending s) = fetched (trace s)" using i by blast
  have i5: "timeouts (trace s) + 1 = nb" using i ph by auto
  have i6: "nb = 1 \<or> buildingsPerBatch * (nb - 1) < length files"
    using i ph by blast
  have i7: "loadedCount s + length (filter (okf E) (pending s))
             \<le> length (filter (okf E) (named (take (endIndex s) files)))" using i by blast
  have i8: "at_each batch_gate [] (trace s)" using i by blast
  have b1: "batches (trace s1) = batches (trace s)"
    using a by (simp add: f1 batches_append)
  have nl: "\<not> fully_loaded (trace s1)"
    using a ph by (simp add: f1 fully_loaded_def)
  have g3: "settled (trace s1) + length (pending s1) = fetched (trace s1)"
    using i4 a length_remove1_mem [OF True]
    by (simp add: f1 settled_append fetched_def batches_append)
  have g4: "timeouts (trace s1) + (if pendingTimer s1 = None then 1 else 0) = nb"
    using i5 a ph by (simp add: f1 timeouts_append)
  have g6: "loadedCount s1 + length (filter (okf E) (pending s1))
             \<le> length (filter (okf E) (named (take (endIndex s1) files)))"
    using i7 filter_remove1_le [OF True, of "okf E"] ok
    by (auto simp: f1 split: if_splits)
  have g7: "at_each batch_gate [] (trace s1)"
    using i8 regs by (simp add: f1 at_each_append at_each_aside)
  have i0: "inv0 files (okf E) (loadedCount s1) (pending s1) (endIndex s1) (pendingTimer s1) (trace s1)"
    unfolding inv0_def Let_def b1 nb_def [symmetric]
    using i1 i2 i3 i6 g3 g4 g6 g7 f1(3) by auto
  show ?thesis
  proof (cases "pending s1 = []")
    case True
    have "Inv E (promise_all_then E s1)"
      by (rule promise_all_then_Inv) (use i0 True nl ph in \<open>simp_all add: f1 files_def\<close>)
    with True st show ?thesis by simp
  next
    case False
    have "phase files (loadedCount s1) (pending s1) (endIndex s1) (pendingTimer s1) (trace s1)"
      using False nl ph by (simp add: phase_def f1)
    with i0 False st show ?thesis by (simp add: Inv_def files_def)
  qed
qed

lemma timer_fires_Inv:
  assumes "Inv E s"
  shows "Inv E (timer_fires E s)"
proof (cases "pendingTimer s")
  case None
  with assms show ?thesis by (simp add: timer_fires_def)
next
  case (Some k)
  define s0 where "s0 = s\<lparr>pendingTimer := None\<rparr>"
  have ph: "pending s = []" "k = endIndex s" "loadedCount s < length (buildingFiles E)"
    "\<not> fully_loaded (trace s)"
    using assms Some by (auto simp: Inv_def phase_def)
  have "pre_batch E s0"
    using assms Some ph unfolding Inv_def inv0_def pre_batch_def Let_def s0_def by simp
  from loadBatch_Inv [OF this] show ?thesis
    using Some ph by (simp add: timer_fires_def s0_def)
qed

lemma boot_Inv: "Inv E (boot E)"
proof -
  have "pre_batch E (initial\<lparr>loadedCount := 0\<rparr>)"
    by (simp add: pre_batch_def initial_def fully_loaded_def fetched_def named_def)
  from loadBatch_Inv [OF this] show ?thesis
    by (simp add: boot_def loadSplitBuildings_def initial_def)
qed

lemma calm_counts:
  "\<forall>e\<in>set es. \<not> loader_event e \<Longrightarrow>
     batches es = [] \<and> settled es = 0 \<and> timeouts es = 0 \<and> \<not> fully_loaded es"
proof (induction es)
  case Nil
  then show ?case by (simp add: fully_loaded_def)
next
  case (Cons e es)
  then show ?case by (cases e) (simp_all add: fully_loaded_def)
qed

lemma at_each_all: "(\<And>pre e. e \<in> set es \<Longrightarrow> Q pre e) \<Longrightarrow> at_each Q p es"
  by (induction es arbitrary: p) simp_all

lemma batch_gate_calm: "\<not> loader_event e \<Longrightarrow> batch_gate pre e"
  by (cases e) simp_all

lemma calm_Inv:
  assumes "Inv E s" and es: "trace s' = trace s @ es" "\<forall>e\<in>set es. \<not> loader_event e"
    and f: "loadedCount s' = loadedCount s" "pending s' = pending s" "endIndex s' = endIndex s"
      "pendingTimer s' = pendingTimer s"
  shows "Inv E s'"
proof -
  note a = calm_counts [OF es(2)]
  have c: "batches (trace s') = batches (trace s)" "settled (trace s') = settled (trace s)"
    "timeouts (trace s') = timeouts (trace s)" "fetched (trace s') = fetched (trace s)"
    "fully_loaded (trace s') = fully_loaded (trace s)"
    using a by (simp_all add: es(1) batches_append settled_append timeouts_append fetched_def
        fully_loaded_def)
  have g: "at_each batch_gate [] (trace s') = at_each batch_gate [] (trace s)"
    using es(2) by (simp add: es(1) at_each_append at_each_all batch_gate_calm)
  show ?thesis
    using assms(1) unfolding Inv_def inv0_def phase_def Let_def f c g by simp
qed

lemma aside_calm: "aside e \<Longrightarrow> \<not> loader_event e"
  by (cases e) simp_all

lemma quiet_Inv: "Inv E s \<Longrightarrow> quiet s s' \<Longrightarrow> Inv E s'"
  by (auto simp: quiet_def intro!: calm_Inv [where s = s] dest: aside_calm)

lemma pointer_down_quiet: "quiet s (step E (PointerDown p) s)"
proof -
  have c: "\<forall>e\<in>set (cleared s). aside e"
    by (auto simp: cleared_def split: option.splits)
  have h: "quiet s (projr (highlightBuilding mesh s))" for mesh
    using c by (cases mesh) (simp_all add: highlightBuilding_eq quiet_def)
  have e: "quiet t (emit (InfoPanelUpdate x) t)" "quiet t (emit (GetBuildingInfo b) t)" for t x b
    by (simp_all add: quiet_def emit_def)
  show ?thesis
    by (auto simp: step_def handlePointerClick_eq quiet_refl
        intro: quiet_trans [OF h e(1)] quiet_trans [OF quiet_trans [OF h e(2)] e(1)]
        split: list.splits option.splits)
qed

lemma step_Inv: "Inv E s \<Longrightarrow> Inv E (step E i s)"
proof (cases i)
  case (Settles f)
  assume "Inv E s"
  then show ?thesis using Settles by (simp add: step_def settles_Inv)
next
  case TimerFires
  assume "Inv E s"
  then show ?thesis using TimerFires by (simp add: step_def timer_fires_Inv)
next
  case (WalkwaysArrive data)
  assume "Inv E s"
  then show ?thesis
    using WalkwaysArrive quiet_Inv [OF _ loadWalkways_quiet] by (simp add: step_def)
next
  case (RoadsArrive data)
  assume "Inv E s"
  then show ?thesis
    using RoadsArrive quiet_Inv [OF _ loadGeoJson_quiet] by (simp add: step_def)
next
  case (YearChange y a)
  assume "Inv E s"
  then show ?thesis
    using YearChange
    by (auto simp: step_def handleYearChange_def emit_def
        intro!: calm_Inv [where s = s and es = "[ShowBuildingsUpToYear y (case a of None \<Rightarrow> True | Some b \<Rightarrow> b)]"])
next
  case (Playing b)
  assume "Inv E s"
  then show ?thesis
    using Playing
    by (auto simp: step_def handlePlaying_def emit_def
        intro!: calm_Inv [where s = s and es = "[SetPaused (\<not> b)]"])
next
  case (PointerDown p)
  assume "Inv E s"
  then show ?thesis
    using PointerDown quiet_Inv [OF _ pointer_down_quiet] by simp
qed

lemma fold_step_Inv: "Inv E s \<Longrightarrow> Inv E (fold (step E) ins s)"
  by (induction ins arbitrary: s) (simp_all add: step_Inv)

lemma run_Inv: "Inv E (run E ins)"
  by (simp add: run_def fold_step_Inv boot_Inv)

section \<open>Calls of the animator\<close>









section \<open>Batches\<close>

lemma batch_at_beyond:
  "(length files + 99) div 100 \<le> k \<Longrightarrow> batch_at files k = []"
  by (simp add: batch_at_def buildingsPerBatch_def)

lemma batch_at_length: "length (batch_at files k) \<le> 100"
proof -
  have "length (filter P (take 100 xs)) \<le> 100" for P and xs :: "string list"
    by (rule order_trans [OF length_filter_le]) simp
  then show ?thesis by (simp add: batch_at_def buildingsPerBatch_def)
qed

lemma filter_take_le: "length (filter P (take n xs)) \<le> min n (length (filter P xs))"
proof -
  have "length (filter P (take n xs)) \<le> length (take n xs)" by (rule length_filter_le)
  moreover have "length (filter P (take n xs)) \<le> length (filter P xs)"
  proof -
    have "filter P xs = filter P (take n xs) @ filter P (drop n xs)"
      by (metis append_take_drop_id filter_append)
    then show ?thesis by simp
  qed
  ultimately show ?thesis by simp
qed

lemma loaded_bound:
  assumes "Inv E s"
  shows "loadedCount s \<le> min (endIndex s) (length (filter (\<lambda>f. f \<noteq> [] \<and> okf E f) (buildingFiles E)))"
proof -
  have "loadedCount s \<le> length (filter (okf E) (named (take (endIndex s) (buildingFiles E))))"
    using assms by (auto simp: Inv_def inv0_def Let_def)
  also have "\<dots> = length (filter (\<lambda>f. f \<noteq> [] \<and> okf E f) (take (endIndex s) (buildingFiles E)))"
    by (simp add: named_def conj_commute)
  also have "\<dots> \<le> min (endIndex s) (length (filter (\<lambda>f. f \<noteq> [] \<and> okf E f) (buildingFiles E)))"
    by (rule filter_take_le)
  finally show ?thesis .
qed

lemma loaded_all_ok:
  assumes "Inv E s" "fully_loaded (trace s)"
  shows "\<forall>f\<in>set (buildingFiles E). f \<noteq> [] \<and> okf E f"
proof -
  have "length (buildingFiles E) \<le> loadedCount s"
    using assms by (auto simp: Inv_def phase_def)
  with loaded_bound [OF assms(1)]
  have "length (buildingFiles E) \<le> length (filter (\<lambda>f. f \<noteq> [] \<and> okf E f) (buildingFiles E))"
    by simp
  then have "filter (\<lambda>f. f \<noteq> [] \<and> okf E f) (buildingFiles E) = buildingFiles E"
    by (metis length_filter_le le_antisym length_filter_less linorder_not_less filter_True)
  then show ?thesis by (metis (mono_tags, lifting) filter_id_conv)
qed

lemma loaded_batches:
  assumes "Inv E s" "fully_loaded (trace s)"
  shows "length (batches (trace s)) = max 1 ((length (buildingFiles E) + 99) div 100)"
proof -
  define nb where "nb = length (batches (trace s))"
  define N where "N = length (buildingFiles E)"
  have c: "pendingTimer s = None" "N \<le> loadedCount s" "pending s = []"
    using assms by (auto simp: Inv_def phase_def N_def)
  have e: "min (100 * nb) N = endIndex s" "0 < nb"
    using assms(1) by (auto simp: Inv_def inv0_def Let_def nb_def N_def buildingsPerBatch_def)
  have "nb = 1 \<or> 100 * (nb - 1) < N"
    using assms(1) c by (auto simp: Inv_def inv0_def Let_def nb_def N_def buildingsPerBatch_def)
  moreover have "N \<le> 100 * nb"
    using loaded_bound [OF assms(1)] c e by (simp add: min_def split: if_splits)
  ultimately show ?thesis
    using e(2) unfolding nb_def [symmetric] N_def [symmetric] by (auto simp: max_def) 
qed

lemmas run_defs = run_def boot_def loadSplitBuildings_def loadBatch_def step_def settles_def
  timer_fires_def promise_all_then_def startTimeline_def loadBatch_promise_def
  handleYearChange_def handlePlaying_def url_def buildingsPerBatch_def
  cleanFileName_def strip_prefix_def strip_suffix_def

section \<open>Sample executions\<close>

lemma campus_loaded_trace:
  "trace (run campus [Settles ''building_001.geojson'']) =
     [FetchBatch [''campus/buildings/building_001.geojson''], RegisterBuilding ''001'' 0,
      Settled ''building_001.geojson'' True, LogLoaded 1, ShowBuildingsUpToYear 2001 True]"
  by (simp add: run_defs geo_defs sample_defs one_file_def Let_def)


lemma rejected_trace:
  "trace (run rejected [Settles ''building_001.geojson'']) =
     [FetchBatch [''campus/buildings/building_001.geojson''],
      Settled ''building_001.geojson'' False, SetTimeout 50]
   \<and> pending (run rejected [Settles ''building_001.geojson'']) = []"
  by (simp add: run_defs geo_defs sample_defs rejected_def no_file_def Let_def)

lemma rejected_polls:
  "trace (run rejected [Settles ''building_001.geojson'', TimerFires, TimerFires]) =
     [FetchBatch [''campus/buildings/building_001.geojson''],
      Settled ''building_001.geojson'' False, SetTimeout 50,
      FetchBatch [], SetTimeout 50, FetchBatch [], SetTimeout 50]"
  by (simp add: run_defs geo_defs sample_defs rejected_def no_file_def Let_def)

lemma concat_batch_at:
  "concat (map (batch_at files) [0..<nb]) = map url (named (take (nb * buildingsPerBatch) files))"
proof (induction nb)
  case 0
  then show ?case by (simp add: named_def)
next
  case (Suc nb)
  have "Suc nb * buildingsPerBatch = nb * buildingsPerBatch + buildingsPerBatch" by simp
  then have "take (Suc nb * buildingsPerBatch) files =
        take (nb * buildingsPerBatch) files @ take buildingsPerBatch (drop (nb * buildingsPerBatch) files)"
    by (simp only: take_add)
  then show ?case using Suc by (simp add: named_def batch_at_def)
qed

lemma batch_at_nonempty:
  assumes "k < (length files + 99) div 100" "\<forall>f\<in>set files. f \<noteq> []"
  shows "batch_at files k \<noteq> []"
proof -
  have "k * 100 < length files" using assms(1) by simp
  then have "take 100 (drop (k * 100) files) \<noteq> []" by simp
  moreover have "filter (\<lambda>f. f \<noteq> []) (take 100 (drop (k * 100) files)) = take 100 (drop (k * 100) files)"
    using assms(2) by (auto simp: filter_id_conv dest: in_set_takeD in_set_dropD)
  ultimately show ?thesis by (simp add: batch_at_def buildingsPerBatch_def)
qed

lemma loadBatch_batches:
  "\<exists>us. batches (trace (loadBatch E k s)) = batches (trace s) @ [us]"
  by (simp add: loadBatch_def Let_def promise_all_then_def startTimeline_def emit_def batches_append)

lemma run_snoc: "run E (ins @ [i]) = step E i (run E ins)"
  by (simp add: run_def)

lemma timer_next_batch:
  assumes "pendingTimer (run E ins) \<noteq> None"
  shows "pending (run E ins) = []
    \<and> batches (trace (run E (ins @ [TimerFires]))) =
        batches (trace (run E ins)) @ [batch_at (buildingFiles E) (length (batches (trace (run E ins))))]"
proof -
  define s where "s = run E ins"
  define s' where "s' = run E (ins @ [TimerFires])"
  from assms obtain k where k: "pendingTimer s = Some k" by (auto simp: s_def)
  have "s' = loadBatch E k (s\<lparr>pendingTimer := None\<rparr>)"
    using k by (simp add: s'_def s_def run_snoc step_def timer_fires_def)
  with loadBatch_batches [of E k "s\<lparr>pendingTimer := None\<rparr>"]
  obtain us where us: "batches (trace s') = batches (trace s) @ [us]" by auto
  have 1: "batches (trace s') = map (batch_at (buildingFiles E)) [0..<length (batches (trace s'))]"
    using run_Inv [of E "ins @ [TimerFires]"] by (simp add: Inv_def inv0_def Let_def s'_def)
  have 2: "batches (trace s) = map (batch_at (buildingFiles E)) [0..<length (batches (trace s))]"
    using run_Inv [of E ins] by (simp add: Inv_def inv0_def Let_def s_def)
  have "us = batch_at (buildingFiles E) (length (batches (trace s)))"
    using 1 unfolding us by (simp add: 2 [symmetric])
  moreover have "pending s = []"
    using run_Inv [of E ins] k by (auto simp: Inv_def phase_def s_def)
  ultimately show ?thesis using us by (simp add: s_def s'_def)
qed

lemma run_fetched_in_order:
  "concat (batches (trace (run E ins))) = map url (named (take (endIndex (run E ins)) (buildingFiles E)))"
proof -
  define s where "s = run E ins"
  define nb where "nb = length (batches (trace s))"
  have i: "batches (trace s) = map (batch_at (buildingFiles E)) [0..<nb]"
    "min (buildingsPerBatch * nb) (length (buildingFiles E)) = endIndex s"
    using run_Inv [of E ins] by (simp_all add: Inv_def inv0_def Let_def s_def nb_def)
  have "take (endIndex s) (buildingFiles E) = take (nb * buildingsPerBatch) (buildingFiles E)"
    unfolding i(2) [symmetric] by (simp add: min_def mult.commute)
  then show ?thesis
    unfolding s_def [symmetric] by (simp add: i(1) concat_batch_at)
qed

text \<open>
  C5. In every execution the batches of fetches are the consecutive blocks of at most
  100 files of the list, in list order; only the first \<open>ceil(N/100)\<close> blocks hold any
  file (all of them do when every file has a name). When the loader reports full load it
  has made exactly that many batches (one, for an empty list); until then a promise or
  the timeout is pending, and when the timeout fires the next block is fetched. A batch
  is fetched only when every promise made before has settled and one timeout per earlier
  batch has been set; every timeout is set for 50 ms, after all promises have settled.
\<close>

theorem batch_loading:
  "batches (trace (run E ins)) =
     map (batch_at (buildingFiles E)) [0..<length (batches (trace (run E ins)))]
   \<and> concat (batches (trace (run E ins))) =
       map url (named (take (endIndex (run E ins)) (buildingFiles E)))
   \<and> (\<forall>k. length (batch_at (buildingFiles E) k) \<le> 100
        \<and> ((length (buildingFiles E) + 99) div 100 \<le> k \<longrightarrow> batch_at (buildingFiles E) k = [])
        \<and> (k < (length (buildingFiles E) + 99) div 100 \<and> (\<forall>f\<in>set (buildingFiles E). f \<noteq> [])
             \<longrightarrow> batch_at (buildingFiles E) k \<noteq> []))
   \<and> (fully_loaded (trace (run E ins)) \<longrightarrow>
        length (batches (trace (run E ins))) = max 1 ((length (buildingFiles E) + 99) div 100))
   \<and> (\<not> fully_loaded (trace (run E ins)) \<longrightarrow>
        pending (run E ins) \<noteq> [] \<or> pendingTimer (run E ins) \<noteq> None)
   \<and> (pendingTimer (run E ins) \<noteq> None \<longrightarrow>
        pending (run E ins) = []
        \<and> batches (trace (run E (ins @ [TimerFires]))) =
            batches (trace (run E ins)) @
              [batch_at (buildingFiles E) (length (batches (trace (run E ins))))])
   \<and> (\<forall>pre us post. trace (run E ins) = pre @ FetchBatch us # post \<longrightarrow>
        settled pre = fetched pre \<and> timeouts pre = length (batches pre))
   \<and> (\<forall>pre d post. trace (run E ins) = pre @ SetTimeout d # post \<longrightarrow>
        d = 50 \<and> settled pre = fetched pre)"
proof -
  note I = run_Inv [of E ins]
  have 1: "batches (trace (run E ins)) =
     map (batch_at (buildingFiles E)) [0..<length (batches (trace (run E ins)))]"
    using I by (simp add: Inv_def inv0_def Let_def)
  have 5: "\<not> fully_loaded (trace (run E ins)) \<longrightarrow>
        pending (run E ins) \<noteq> [] \<or> pendingTimer (run E ins) \<noteq> None"
    using I by (auto simp: Inv_def phase_def)
  have g: "\<forall>pre e post. trace (run E ins) = pre @ e # post \<longrightarrow> batch_gate pre e"
    using I at_each_split [of batch_gate "[]" "trace (run E ins)"]
    by (simp add: Inv_def inv0_def Let_def)
  have 7: "\<forall>pre us post. trace (run E ins) = pre @ FetchBatch us # post \<longrightarrow>
        settled pre = fetched pre \<and> timeouts pre = length (batches pre)"
    using g by fastforce
  have 8: "\<forall>pre d post. trace (run E ins) = pre @ SetTimeout d # post \<longrightarrow>
        d = 50 \<and> settled pre = fetched pre"
    using g by fastforce
  note 2 = run_fetched_in_order [of E ins]
  have 3: "\<forall>k. length (batch_at (buildingFiles E) k) \<le> 100
        \<and> ((length (buildingFiles E) + 99) div 100 \<le> k \<longrightarrow> batch_at (buildingFiles E) k = [])
        \<and> (k < (length (buildingFiles E) + 99) div 100 \<and> (\<forall>f\<in>set (buildingFiles E). f \<noteq> [])
             \<longrightarrow> batch_at (buildingFiles E) k \<noteq> [])"
    using batch_at_length batch_at_beyond batch_at_nonempty by blast
  have 4: "fully_loaded (trace (run E ins)) \<longrightarrow>
        length (batches (trace (run E ins))) = max 1 ((length (buildingFiles E) + 99) div 100)"
    using loaded_batches [OF I] by blast
  have 6: "pendingTimer (run E ins) \<noteq> None \<longrightarrow>
        pending (run E ins) = []
        \<and> batches (trace (run E (ins @ [TimerFires]))) =
            batches (trace (run E ins)) @
              [batch_at (buildingFiles E) (length (batches (trace (run E ins))))]"
    using timer_next_batch [of E ins] by blast
  from 1 2 3 4 5 6 7 8 show ?thesis by (intro conjI)
qed

section \<open>Full load\<close>

lemma failed_never_loaded:
  assumes "f \<in> set (buildingFiles E)" "f = [] \<or> fetchJson E (url f) = None"
  shows "\<not> fully_loaded (trace (run E ins))"
proof
  assume "fully_loaded (trace (run E ins))"
  from loaded_all_ok [OF run_Inv this] assms(1)
  have "f \<noteq> [] \<and> okf E f" by blast
  with assms(2) show False by (simp add: okf_def)
qed

text \<open>
  C1, where a fetch fails. With one file whose fetch is rejected, the promise settles
  and nothing is pending, yet the loader sets a timeout instead of reporting full load;
  each time the timeout fires it fetches nothing and sets the timeout again. It never
  reports full load, in any execution. The same holds for the program's own list of 53
  files when the fetch of one of them is rejected.
\<close>

theorem failed_fetch_never_signals:
  "trace (run rejected [Settles ''building_001.geojson'']) =
     [FetchBatch [''campus/buildings/building_001.geojson''],
      Settled ''building_001.geojson'' False, SetTimeout 50]
   \<and> pending (run rejected [Settles ''building_001.geojson'']) = []
   \<and> trace (run rejected [Settles ''building_001.geojson'', TimerFires, TimerFires]) =
       [FetchBatch [''campus/buildings/building_001.geojson''],
        Settled ''building_001.geojson'' False, SetTimeout 50,
        FetchBatch [], SetTimeout 50, FetchBatch [], SetTimeout 50]
   \<and> (\<forall>ins. \<not> fully_loaded (trace (run rejected ins)))
   \<and> (\<forall>ins. \<not> fully_loaded (trace (run whole_campus ins)))"
proof -
  have 1: "\<not> fully_loaded (trace (run rejected ins))" for ins
    by (rule failed_never_loaded [of "''building_001.geojson''"])
       (simp_all add: rejected_def campus_def no_file_def)
  have 2: "\<not> fully_loaded (trace (run whole_campus ins))" for ins
    by (rule failed_never_loaded [of "''building_idk.geojson''"])
       (simp_all add: whole_campus_def campus_buildingFiles_def missing_idk_def url_def)
  from rejected_trace rejected_polls 1 2 show ?thesis by blast
qed




theorem batch_loading_witness:
  "fully_loaded (trace (run campus [Settles ''building_001.geojson'']))
   \<and> length (batches (trace (run campus [Settles ''building_001.geojson'']))) = 1
   \<and> \<not> fully_loaded (trace (run rejected [Settles ''building_001.geojson'']))
   \<and> pendingTimer (run rejected [Settles ''building_001.geojson'']) \<noteq> None
   \<and> batches (trace (run rejected ([Settles ''building_001.geojson''] @ [TimerFires]))) =
       [[''campus/buildings/building_001.geojson''], []]
   \<and> trace (run rejected [Settles ''building_001.geojson'', TimerFires]) =
       [FetchBatch [''campus/buildings/building_001.geojson''],
        Settled ''building_001.geojson'' False, SetTimeout 50] @ FetchBatch [] # [SetTimeout 50]
   \<and> settled [FetchBatch [''campus/buildings/building_001.geojson''],
        Settled ''building_001.geojson'' False, SetTimeout 50] = 1
   \<and> fetched [FetchBatch [''campus/buildings/building_001.geojson''],
        Settled ''building_001.geojson'' False, SetTimeout 50] = 1"
proof -
  let ?f = "''building_001.geojson''"
  let ?pre = "[FetchBatch [''campus/buildings/building_001.geojson''], Settled ?f False, SetTimeout 50]"
  have a: "fully_loaded (trace (run campus [Settles ?f]))"
    by (simp add: campus_loaded_trace fully_loaded_def)
  have b: "\<not> fully_loaded (trace (run rejected [Settles ?f]))"
    by (simp add: rejected_trace fully_loaded_def)
  have n: "length (buildingFiles campus) = 1" "length (buildingFiles rejected) = 1"
    "buildingFiles rejected = [?f]"
    by (simp_all add: campus_def rejected_def)
  have t: "trace (run rejected [Settles ?f, TimerFires]) = ?pre @ FetchBatch [] # [SetTimeout 50]"
    by (simp add: run_defs geo_defs sample_defs rejected_def no_file_def Let_def)
  have c: "batches (trace (run rejected [Settles ?f])) = [[''campus/buildings/building_001.geojson'']]"
    by (simp add: rejected_trace)
  have d: "batch_at [?f] 1 = []"
    by (simp add: batch_at_def buildingsPerBatch_def)
  note w1 = batch_loading [of campus "[Settles ?f]"]
  note w2 = batch_loading [of rejected "[Settles ?f]"]
  note w3 = batch_loading [of rejected "[Settles ?f, TimerFires]"]
  from w1 a n have 1: "length (batches (trace (run campus [Settles ?f]))) = 1" by simp
  from w2 b have 2: "pendingTimer (run rejected [Settles ?f]) \<noteq> None"
    by (simp add: rejected_trace)
  from w2 2 have 3: "batches (trace (run rejected ([Settles ?f] @ [TimerFires]))) =
       [[''campus/buildings/building_001.geojson''], []]"
    by (simp add: c n d)
  from w3 t have 4: "settled ?pre = fetched ?pre \<and> timeouts ?pre = length (batches ?pre)"
    by blast
  have 5: "settled ?pre = 1" by simp
  from a 1 b 2 3 t 4 5 show ?thesis by simp
qed

end
